theory Spec2Isabelle
  imports Complex_Main "HOL-Library.Char_ord" "HOL-Library.List_Lexorder"
begin

section \<open>Data model\<close>

text \<open>
  A pandas float cell.  Finite values are exact rationals (rounding and overflow of
  binary floating point are not modelled, and the two signed zeros are one zero);
  the three special values of IEEE arithmetic are kept, because division by zero
  produces them.  \<open>NaN\<close> is the value pandas treats as missing; the infinities are
  not missing.
\<close>

datatype cell = NaN | NegInf | Num rat | PosInf

text \<open>
  One line of the data frame: the identity columns and the float columns, read by
  name.  The frame carries the list of float columns it has; a cell of a column that
  the frame does not have is never read.
\<close>

record row =
  iso_code :: string
  location :: string
  date :: int
  cells :: "string \<Rightarrow> cell"

record frame =
  columns :: "string list"
  rows :: "row list"

subsection \<open>Float comparison\<close>

text \<open>\<open>a < b\<close> on floats: false as soon as one side is NaN.\<close>

fun fless :: "cell \<Rightarrow> cell \<Rightarrow> bool" where
  "fless NaN _ = False"
| "fless _ NaN = False"
| "fless (Num a) (Num b) = (a < b)"
| "fless NegInf NegInf = False"
| "fless NegInf _ = True"
| "fless _ NegInf = False"
| "fless PosInf _ = False"
| "fless _ PosInf = True"

text \<open>\<open>a > b\<close> on floats.\<close>

definition fgreater :: "cell \<Rightarrow> cell \<Rightarrow> bool" where
  "fgreater a b = fless b a"

subsection \<open>Reading a row\<close>

text \<open>\<open>row.get(field)\<close>: the cell, or \<open>None\<close> when the row has no such column.\<close>

definition row_get :: "string list \<Rightarrow> row \<Rightarrow> string \<Rightarrow> cell option" where
  "row_get cols r field = (if field \<in> set cols then Some (cells r field) else None)"

text \<open>\<open>row.get(field, default)\<close>.\<close>

definition row_get_default :: "string list \<Rightarrow> row \<Rightarrow> string \<Rightarrow> cell \<Rightarrow> cell" where
  "row_get_default cols r field d = (if field \<in> set cols then cells r field else d)"

text \<open>\<open>pd.isna\<close> and \<open>pd.notna\<close> on what \<open>row.get\<close> returns: \<open>None\<close> and NaN are missing.\<close>

definition isna :: "cell option \<Rightarrow> bool" where
  "isna v = (case v of None \<Rightarrow> True | Some c \<Rightarrow> c = NaN)"

definition notna :: "cell option \<Rightarrow> bool" where
  "notna v = (\<not> isna v)"

section \<open>Quality score (etl\_postgres.py, calculate\_data\_quality\_score)\<close>

definition key_fields :: "string list" where
  "key_fields = [''new_cases'', ''total_cases'', ''population'']"

text \<open>The loop over \<open>key_fields\<close>: 15 points off for each missing field.\<close>

fun missing_penalties :: "string list \<Rightarrow> row \<Rightarrow> string list \<Rightarrow> rat \<Rightarrow> rat" where
  "missing_penalties cols r [] score = score"
| "missing_penalties cols r (field # rest) score =
     missing_penalties cols r rest
       (if isna (row_get cols r field) then score - 15 else score)"

definition calculate_data_quality_score :: "string list \<Rightarrow> row \<Rightarrow> rat" where
  "calculate_data_quality_score cols r =
     (let score = missing_penalties cols r key_fields 100;
          score = (if \<not> isna (row_get cols r ''new_cases'')
                      \<and> fless (row_get_default cols r ''new_cases'' (Num 0)) (Num 0)
                   then score - 10 else score);
          score = (if \<not> isna (row_get cols r ''case_fatality_rate'')
                      \<and> fgreater (row_get_default cols r ''case_fatality_rate'' (Num 0)) (Num 20)
                   then score - 5 else score)
      in max 0 score)"

text \<open>A row of a frame with the three key columns absent and an implausible fatality rate.\<close>

definition score_cols :: "string list" where
  "score_cols = [''total_deaths'', ''case_fatality_rate'']"

definition score_row :: row where
  "score_row = \<lparr>iso_code = ''FRA'', location = ''France'', date = 10,
     cells = (\<lambda>_. NaN)(''case_fatality_rate'' := Num 25)\<rparr>"

section \<open>Alert detection (etl\_postgres.py, detect\_alerts)\<close>

text \<open>The dictionary an alert is built as.\<close>

record alert =
  country_code :: string
  alert_type :: string
  alert_date :: int
  metric_value :: cell
  threshold_value :: rat
  severity :: string

text \<open>
  The \<open>THRESHOLDS\<close> dictionary of \<open>detect_alerts\<close>.  It is only read at keys written
  in the function itself, all of which it has, so the lookup cannot fail; the default
  below is never reached.
\<close>

definition THRESHOLDS :: "(string \<times> rat) list" where
  "THRESHOLDS = [(''high_incidence'', 150), (''very_high_incidence'', 300),
     (''high_cfr'', 3), (''rapid_increase'', 50)]"

definition threshold :: "string \<Rightarrow> rat" where
  "threshold k = (case map_of THRESHOLDS k of Some v \<Rightarrow> v | None \<Rightarrow> 0)"

text \<open>\<open>df['date'].max()\<close>: no date (NaT) for a frame without rows.\<close>

fun date_max :: "row list \<Rightarrow> int option" where
  "date_max [] = None"
| "date_max (r # rs) = Some (fold max (map date rs) (date r))"

text \<open>
  The body of the loop of \<open>detect_alerts\<close> for one row: the incidence check (the higher
  threshold first, the lower one in the \<open>elif\<close>), then the fatality-rate check, each
  appending to the list of alerts.
\<close>

definition check_row :: "string list \<Rightarrow> int \<Rightarrow> alert list \<Rightarrow> row \<Rightarrow> alert list" where
  "check_row cols latest_date alerts r =
     (let country = iso_code r;
          incidence = row_get_default cols r ''incidence_rate_100k'' (Num 0);
          alerts =
            (if notna (Some incidence) then
               if fgreater incidence (Num (threshold ''very_high_incidence'')) then
                 alerts @ [\<lparr>country_code = country, alert_type = ''very_high_incidence'',
                    alert_date = latest_date, metric_value = incidence,
                    threshold_value = threshold ''very_high_incidence'', severity = ''high''\<rparr>]
               else if fgreater incidence (Num (threshold ''high_incidence'')) then
                 alerts @ [\<lparr>country_code = country, alert_type = ''high_incidence'',
                    alert_date = latest_date, metric_value = incidence,
                    threshold_value = threshold ''high_incidence'', severity = ''medium''\<rparr>]
               else alerts
             else alerts);
          cfr = row_get_default cols r ''case_fatality_rate'' (Num 0)
      in if notna (Some cfr) \<and> fgreater cfr (Num (threshold ''high_cfr'')) then
           alerts @ [\<lparr>country_code = country, alert_type = ''high_cfr'',
              alert_date = latest_date, metric_value = cfr,
              threshold_value = threshold ''high_cfr'', severity = ''medium''\<rparr>]
         else alerts)"

definition detect_alerts :: "frame \<Rightarrow> alert list" where
  "detect_alerts df =
     (case date_max (rows df) of
        None \<Rightarrow> []
      | Some latest_date \<Rightarrow>
          (let latest_data = filter (\<lambda>r. date r = latest_date) (rows df)
           in foldl (check_row (columns df) latest_date) [] latest_data))"

text \<open>The alerts one row contributes when it is checked.\<close>

definition row_alerts :: "string list \<Rightarrow> int \<Rightarrow> row \<Rightarrow> alert list" where
  "row_alerts cols latest_date r = check_row cols latest_date [] r"

text \<open>\<open>a \<le> b\<close> on floats, for stating the band of the lower incidence threshold.\<close>

definition fleq :: "cell \<Rightarrow> cell \<Rightarrow> bool" where
  "fleq a b = (a \<noteq> NaN \<and> b \<noteq> NaN \<and> \<not> fless b a)"

text \<open>The two incidence kinds.\<close>

definition incidence_kind :: "alert \<Rightarrow> bool" where
  "incidence_kind a = (alert_type a = ''very_high_incidence'' \<or> alert_type a = ''high_incidence'')"

text \<open>
  A frame of two entities: DEU is reported up to day 2, ITA only up to day 1, with an
  incidence of 350 and a fatality rate of 4 on its last day.
\<close>

definition metric_cols :: "string list" where
  "metric_cols = [''incidence_rate_100k'', ''case_fatality_rate'']"

definition mk_row :: "string \<Rightarrow> int \<Rightarrow> cell \<Rightarrow> cell \<Rightarrow> row" where
  "mk_row c d inc cfr = \<lparr>iso_code = c, location = c, date = d,
     cells = (\<lambda>_. NaN)(''incidence_rate_100k'' := inc, ''case_fatality_rate'' := cfr)\<rparr>"

definition lagging_frame :: frame where
  "lagging_frame = \<lparr>columns = metric_cols,
     rows = [mk_row ''DEU'' 1 (Num 10) (Num 1), mk_row ''DEU'' 2 (Num 200) (Num 1),
             mk_row ''ITA'' 1 (Num 350) (Num 4)]\<rparr>"

text \<open>
  A frame with an earlier day and a latest day on which DEU, ITA and ESP each have a
  row: DEU with an incidence of 200, ITA with an incidence of 350 and a fatality rate
  of 4, ESP with no incidence and a fatality rate of 2.
\<close>

definition breach_frame :: frame where
  "breach_frame = \<lparr>columns = metric_cols,
     rows = [mk_row ''DEU'' 1 (Num 400) (Num 9), mk_row ''DEU'' 2 (Num 200) (Num 1),
             mk_row ''ITA'' 2 (Num 350) (Num 4), mk_row ''ESP'' 2 NaN (Num 2)]\<rparr>"

section \<open>Alert persistence (etl\_postgres.py, save\_alerts and run\_etl)\<close>

text \<open>
  A line of the table \<open>covid_alerts\<close>: the alert with the columns the table adds,
  each of which can be NULL.  \<open>create_tables\<close> declares \<open>is_active\<close> with
  \<open>default=True\<close> and \<open>created_at\<close> with \<open>default=datetime.utcnow\<close>; these are
  defaults of the Python table object, not of the database schema.  The surrogate key
  \<open>id\<close> is not modelled: no statement of \<open>save_alerts\<close> reads it.  Times are
  integers, and one pass has one time.
\<close>

record stored_alert = alert +
  is_active :: "bool option"
  created_at :: "int option"
  resolved_at :: "int option"

text \<open>What identifies the alerts that supersede each other: the country and the kind.\<close>

definition key_of :: "'a alert_scheme \<Rightarrow> string \<times> string" where
  "key_of a = (country_code a, alert_type a)"

text \<open>
  The \<open>UPDATE\<close> statement issued for one new alert: the lines of the same country and
  kind whose \<open>is_active\<close> is true become inactive and get their resolution time.  A
  line whose \<open>is_active\<close> is NULL does not satisfy \<open>is_active == True\<close>.
\<close>

definition deactivate :: "int \<Rightarrow> stored_alert list \<Rightarrow> alert \<Rightarrow> stored_alert list" where
  "deactivate now table a =
     map (\<lambda>s. if country_code s = country_code a \<and> alert_type s = alert_type a
                  \<and> is_active s = Some True
               then s\<lparr>is_active := Some False, resolved_at := Some now\<rparr> else s) table"

text \<open>
  The line the \<open>INSERT\<close> statement makes of an alert.  \<open>save_alerts\<close> inserts through
  a table object it has just reflected from the database
  (\<open>Table('covid_alerts', metadata, autoload_with=self.engine)\<close>), which has none of
  the Python-side defaults of \<open>create_tables\<close>; the dictionary of an alert has no
  \<open>is_active\<close> and no \<open>created_at\<close>, so both are stored as NULL.
\<close>

definition new_row :: "alert \<Rightarrow> stored_alert" where
  "new_row a = \<lparr>country_code = country_code a, alert_type = alert_type a,
     alert_date = alert_date a, metric_value = metric_value a,
     threshold_value = threshold_value a, severity = severity a,
     is_active = None, created_at = None, resolved_at = None\<rparr>"

text \<open>
  \<open>save_alerts\<close>, as a function from the table before to the table after, for a pass
  whose database calls succeed (a failing call rolls the transaction back and is
  logged, the table staying as it was).  An empty list returns at once.
\<close>

definition save_alerts :: "int \<Rightarrow> alert list \<Rightarrow> stored_alert list \<Rightarrow> stored_alert list" where
  "save_alerts now alerts table =
     (if alerts = [] then table
      else (let table = foldl (deactivate now) table alerts
            in table @ map new_row alerts))"

text \<open>Step 3 of \<open>run_etl\<close>: detect, and save when something was detected.\<close>

definition detection_pass :: "int \<Rightarrow> frame \<Rightarrow> stored_alert list \<Rightarrow> stored_alert list" where
  "detection_pass now df table =
     (let alerts = detect_alerts df
      in if alerts \<noteq> [] then save_alerts now alerts table else table)"

text \<open>The lines that count as active alerts: those whose \<open>is_active\<close> is true.\<close>

definition active :: "stored_alert list \<Rightarrow> stored_alert list" where
  "active table = filter (\<lambda>s. is_active s = Some True) table"

text \<open>
  A frame on whose latest day DEU breaches the lower incidence threshold and ITA
  breaches nothing.
\<close>

definition calm_frame :: frame where
  "calm_frame = \<lparr>columns = metric_cols,
     rows = [mk_row ''DEU'' 2 (Num 200) (Num 1), mk_row ''ITA'' 2 (Num 10) (Num 1)]\<rparr>"

section \<open>Float arithmetic\<close>

text \<open>
  IEEE division, as numpy and pandas compute it on float columns: a non-zero number
  over zero is an infinity, zero over zero and infinity over infinity are NaN, and any
  operation on NaN gives NaN.  No exception is raised.
\<close>

fun fdiv :: "cell \<Rightarrow> cell \<Rightarrow> cell" where
  "fdiv NaN _ = NaN"
| "fdiv _ NaN = NaN"
| "fdiv (Num a) (Num b) =
     (if b = 0 then (if a = 0 then NaN else if 0 < a then PosInf else NegInf)
      else Num (a / b))"
| "fdiv (Num a) _ = Num 0"
| "fdiv PosInf (Num b) = (if 0 \<le> b then PosInf else NegInf)"
| "fdiv NegInf (Num b) = (if 0 \<le> b then NegInf else PosInf)"
| "fdiv _ _ = NaN"

fun fmul :: "cell \<Rightarrow> cell \<Rightarrow> cell" where
  "fmul NaN _ = NaN"
| "fmul _ NaN = NaN"
| "fmul (Num a) (Num b) = Num (a * b)"
| "fmul (Num a) PosInf = (if a = 0 then NaN else if 0 < a then PosInf else NegInf)"
| "fmul (Num a) NegInf = (if a = 0 then NaN else if 0 < a then NegInf else PosInf)"
| "fmul PosInf (Num b) = (if b = 0 then NaN else if 0 < b then PosInf else NegInf)"
| "fmul NegInf (Num b) = (if b = 0 then NaN else if 0 < b then NegInf else PosInf)"
| "fmul PosInf PosInf = PosInf"
| "fmul PosInf NegInf = NegInf"
| "fmul NegInf PosInf = NegInf"
| "fmul NegInf NegInf = PosInf"

section \<open>Columns of a frame\<close>

text \<open>\<open>df[col]\<close>, read: the cells of one column, in row order.\<close>

definition column :: "string \<Rightarrow> frame \<Rightarrow> cell list" where
  "column col df = map (\<lambda>r. cells r col) (rows df)"

text \<open>
  \<open>df[col] = values\<close>: an existing column is overwritten, a new one is added at the
  end.  The frame has the index 0, 1, ... (\<open>filter_and_clean\<close> resets it), and so have
  the values assigned here, so the assignment goes by position; a position the values
  do not reach gets NaN.
\<close>

definition set_column :: "string \<Rightarrow> cell list \<Rightarrow> frame \<Rightarrow> frame" where
  "set_column col vals df =
     \<lparr>columns = (if col \<in> set (columns df) then columns df else columns df @ [col]),
      rows = map (\<lambda>i. (rows df ! i)\<lparr>cells := (cells (rows df ! i))
                        (col := if i < length vals then vals ! i else NaN)\<rparr>)
               [0..<length (rows df)]\<rparr>"

text \<open>The grouping key of every row: \<open>df['iso_code']\<close>.\<close>

definition keys_of :: "frame \<Rightarrow> string list" where
  "keys_of df = map iso_code (rows df)"

section \<open>Grouped operations of pandas\<close>

text \<open>The positions of the rows of one group, in row order.\<close>

definition group_index :: "string list \<Rightarrow> string \<Rightarrow> nat list" where
  "group_index keys k = filter (\<lambda>i. keys ! i = k) [0..<length keys]"

text \<open>The values of one group, in row order.\<close>

definition group_values :: "string list \<Rightarrow> cell list \<Rightarrow> string \<Rightarrow> cell list" where
  "group_values keys vals k = map (\<lambda>i. vals ! i) (group_index keys k)"

text \<open>How many rows of its own group precede row \<open>i\<close>.\<close>

definition position_in_group :: "string list \<Rightarrow> nat \<Rightarrow> nat" where
  "position_in_group keys i = length (filter (\<lambda>j. keys ! j = keys ! i) [0..<i])"

text \<open>
  \<open>df.groupby(key)[col].fillna(...)\<close> and the like: the function is applied to the
  values of each group, and each result goes back to the row it came from (the result
  keeps the index of the frame).
\<close>

definition groupby_transform ::
  "(cell list \<Rightarrow> cell list) \<Rightarrow> string list \<Rightarrow> cell list \<Rightarrow> cell list" where
  "groupby_transform f keys vals =
     map (\<lambda>i. f (group_values keys vals (keys ! i)) ! position_in_group keys i)
       [0..<length keys]"

text \<open>Forward fill of one series: a missing value takes the last value seen before it.\<close>

fun ffill_from :: "cell \<Rightarrow> cell list \<Rightarrow> cell list" where
  "ffill_from last_seen [] = []"
| "ffill_from last_seen (x # xs) =
     (if x = NaN then last_seen # ffill_from last_seen xs else x # ffill_from x xs)"

definition ffill :: "cell list \<Rightarrow> cell list" where
  "ffill xs = ffill_from NaN xs"

text \<open>\<open>series.fillna(value)\<close>.\<close>

definition fillna :: "cell \<Rightarrow> cell list \<Rightarrow> cell list" where
  "fillna v xs = map (\<lambda>x. if x = NaN then v else x) xs"

text \<open>
  The mean of a window of \<open>rolling(...).mean()\<close> with \<open>min_periods=1\<close>: pandas' rolling
  turns an infinity into NaN before it aggregates, so the values that count are the
  finite ones; with none of them the result is NaN.
\<close>

definition finite_values :: "cell list \<Rightarrow> rat list" where
  "finite_values ws = concat (map (\<lambda>c. case c of Num a \<Rightarrow> [a] | _ \<Rightarrow> []) ws)"

definition window_mean :: "cell list \<Rightarrow> cell" where
  "window_mean ws =
     (let vs = finite_values ws
      in if 1 \<le> length vs then Num (sum_list vs / of_nat (length vs)) else NaN)"

text \<open>
  \<open>series.rolling(window=7, center=True, min_periods=1).mean()\<close>: the window of
  position \<open>i\<close> runs from \<open>i - 3\<close> to \<open>i + 3\<close>, cut at both ends of the series.
\<close>

definition rolling_mean :: "cell list \<Rightarrow> cell list" where
  "rolling_mean xs =
     map (\<lambda>i. window_mean (take (min (length xs) (i + 4) - (i - 3)) (drop (i - 3) xs)))
       [0..<length xs]"

text \<open>The group keys in the order \<open>groupby\<close> yields the groups: sorted, each once.\<close>

definition group_keys :: "string list \<Rightarrow> string list" where
  "group_keys keys = sort (remdups keys)"

text \<open>
  \<open>df.groupby(key)[col].rolling(...).mean().reset_index(drop=True)\<close>: the rolling
  means of the groups one after the other, in the order of the group keys, renumbered
  from 0.
\<close>

definition groupby_rolling_mean :: "string list \<Rightarrow> cell list \<Rightarrow> cell list" where
  "groupby_rolling_mean keys vals =
     concat (map (\<lambda>k. rolling_mean (group_values keys vals k)) (group_keys keys))"

section \<open>Imputation (transformation\_script.py, handle\_missing\_values)\<close>

definition cumulative_cols :: "string list" where
  "cumulative_cols = [''total_cases'', ''total_deaths'', ''total_vaccinations'',
     ''people_vaccinated'', ''people_fully_vaccinated'']"

definition daily_cols :: "string list" where
  "daily_cols = [''new_cases'', ''new_deaths'', ''new_vaccinations'']"

text \<open>\<open>if col in df.columns: df[col] = df.groupby('iso_code')[col].fillna(method='ffill')\<close>\<close>

definition ffill_column :: "frame \<Rightarrow> string \<Rightarrow> frame" where
  "ffill_column df col =
     (if col \<in> set (columns df)
      then set_column col (groupby_transform ffill (keys_of df) (column col df)) df
      else df)"

text \<open>\<open>if col in df.columns: df[col] = df[col].fillna(0)\<close>\<close>

definition zero_fill_column :: "frame \<Rightarrow> string \<Rightarrow> frame" where
  "zero_fill_column df col =
     (if col \<in> set (columns df)
      then set_column col (fillna (Num 0) (column col df)) df
      else df)"

text \<open>
  The four numbered steps of \<open>handle_missing_values\<close>, in their order; the two loops
  run over their lists of columns.  (The logging at the head of the function reads the
  frame and changes nothing.)
\<close>

definition handle_missing_values :: "frame \<Rightarrow> frame" where
  "handle_missing_values df =
     ffill_column
       (ffill_column
          (foldl zero_fill_column (foldl ffill_column df cumulative_cols) daily_cols)
          ''population'')
       ''stringency_index''"

section \<open>Derived metrics (transformation\_script.py, calculate\_derived\_metrics)\<close>

text \<open>\<open>(df[a] / df[b]) * k\<close>, element by element.\<close>

definition rate_column :: "string \<Rightarrow> string \<Rightarrow> rat \<Rightarrow> frame \<Rightarrow> cell list" where
  "rate_column a b k df =
     map (\<lambda>(x, y). fmul (fdiv x y) (Num k)) (zip (column a df) (column b df))"

text \<open>\<open>np.where(df[b] > 0, (df[a] / df[b]) * 100, 0)\<close>, element by element.\<close>

definition guarded_rate_column :: "string \<Rightarrow> string \<Rightarrow> frame \<Rightarrow> cell list" where
  "guarded_rate_column a b df =
     map (\<lambda>(x, y). if fgreater y (Num 0) then fmul (fdiv x y) (Num 100) else Num 0)
       (zip (column a df) (column b df))"

text \<open>Step 1: the incidence rate per 100,000 inhabitants.\<close>

definition add_incidence_rate :: "frame \<Rightarrow> frame" where
  "add_incidence_rate df =
     (if ''new_cases'' \<in> set (columns df) \<and> ''population'' \<in> set (columns df)
      then set_column ''incidence_rate_100k''
             (rate_column ''new_cases'' ''population'' 100000 df) df
      else df)"

text \<open>Step 2: the death rate per 100,000 inhabitants.\<close>

definition add_death_rate :: "frame \<Rightarrow> frame" where
  "add_death_rate df =
     (if ''new_deaths'' \<in> set (columns df) \<and> ''population'' \<in> set (columns df)
      then set_column ''death_rate_100k''
             (rate_column ''new_deaths'' ''population'' 100000 df) df
      else df)"

text \<open>Step 3: the case fatality rate.\<close>

definition add_case_fatality_rate :: "frame \<Rightarrow> frame" where
  "add_case_fatality_rate df =
     (if ''total_deaths'' \<in> set (columns df) \<and> ''total_cases'' \<in> set (columns df)
      then set_column ''case_fatality_rate''
             (guarded_rate_column ''total_deaths'' ''total_cases'' df) df
      else df)"

text \<open>Step 4: the moving averages; this is the body of the loop over \<open>rolling_cols\<close>.\<close>

definition rolling_cols :: "string list" where
  "rolling_cols = [''new_cases'', ''new_deaths'', ''incidence_rate_100k'']"

definition rolling_column :: "frame \<Rightarrow> string \<Rightarrow> frame" where
  "rolling_column df col =
     (if col \<in> set (columns df)
      then set_column (col @ ''_7day_avg'')
             (groupby_rolling_mean (keys_of df) (column col df)) df
      else df)"

text \<open>Step 5: the share of the population that is fully vaccinated.\<close>

definition add_vaccination_rate :: "frame \<Rightarrow> frame" where
  "add_vaccination_rate df =
     (if ''people_fully_vaccinated'' \<in> set (columns df) \<and> ''population'' \<in> set (columns df)
      then set_column ''vaccination_rate''
             (guarded_rate_column ''people_fully_vaccinated'' ''population'' df) df
      else df)"

definition calculate_derived_metrics :: "frame \<Rightarrow> frame" where
  "calculate_derived_metrics df =
     add_vaccination_rate
       (foldl rolling_column
          (add_case_fatality_rate (add_death_rate (add_incidence_rate df)))
          rolling_cols)"

section \<open>Frames used to state and exercise the properties of the transformation\<close>

text \<open>
  The rows of every entity stand in the order of their dates, one row per date: what
  the sort by entity and date at the end of \<open>filter_and_clean\<close> establishes.
\<close>

definition chronological :: "frame \<Rightarrow> bool" where
  "chronological df =
     sorted_wrt (\<lambda>r s. iso_code r = iso_code s \<longrightarrow> date r < date s) (rows df)"

text \<open>A row with a value of \<open>total_cases\<close>.\<close>

definition obs :: "string \<Rightarrow> int \<Rightarrow> cell \<Rightarrow> row" where
  "obs c d v = \<lparr>iso_code = c, location = c, date = d,
     cells = (\<lambda>_. NaN)(''total_cases'' := v)\<rparr>"

text \<open>
  Entity X reports 100, nothing, nothing, 140; the rows of entity Y lie between them,
  with a value where X has none.
\<close>

definition gap_frame :: frame where
  "gap_frame = \<lparr>columns = [''total_cases''],
     rows = [obs ''X'' 1 (Num 100), obs ''Y'' 1 (Num 7), obs ''X'' 2 NaN,
             obs ''Y'' 2 (Num 9), obs ''X'' 3 NaN, obs ''X'' 4 (Num 140)]\<rparr>"

section \<open>The per-entity view in which the specification speaks\<close>




section \<open>Sample frames\<close>

text \<open>A row of raw counters.\<close>

definition raw_row ::
  "string \<Rightarrow> int \<Rightarrow> cell \<Rightarrow> cell \<Rightarrow> cell \<Rightarrow> cell \<Rightarrow> cell \<Rightarrow> row" where
  "raw_row c d nc pop tc td pfv = \<lparr>iso_code = c, location = c, date = d,
     cells = (\<lambda>_. NaN)(''new_cases'' := nc, ''population'' := pop, ''total_cases'' := tc,
        ''total_deaths'' := td, ''people_fully_vaccinated'' := pfv)\<rparr>"

definition raw_cols :: "string list" where
  "raw_cols = [''population'', ''total_cases'', ''new_cases'', ''total_deaths'',
     ''people_fully_vaccinated'']"

text \<open>
  Four rows of one entity: one without population and total cases; one with a
  population of zero and no total of deaths; one complete but for the vaccinations;
  one with a negative population.
\<close>

definition rates_frame :: frame where
  "rates_frame = \<lparr>columns = raw_cols,
     rows = [raw_row ''FRA'' 1 NaN NaN NaN (Num 5) (Num 10),
             raw_row ''FRA'' 2 (Num 5) (Num 0) (Num 100) NaN (Num 10),
             raw_row ''FRA'' 3 (Num 5) (Num 1000) (Num 200) (Num 4) NaN,
             raw_row ''FRA'' 4 (Num 5) (Num (- 1000)) (Num 200) (Num 4) (Num 10)]\<rparr>"



section \<open>The transformation run (transformation\_script.py, main and its stages)\<close>

text \<open>
  The steps of a run at which an exception can be raised.  A stage of the script is a
  \<open>try\<close> block that logs and re-raises; whether pandas or the file system raises in
  it is not decided by the frame (an unreadable file, a column that is not there, a
  disk that is full), so it is given from outside, by a predicate on the steps.  The two
  stages that write have a step for each of their calls that touch the directory.
  Writing the report: building the dictionary, \<open>open(report_file, 'w')\<close>, which creates
  the file, and \<open>json.dump\<close>, which fills it.  Saving: what \<open>to_parquet\<close> does before
  its file exists, the writing of the file, \<open>latest_link.unlink()\<close>,
  \<open>latest_link.symlink_to\<close>, and \<open>parquet_file.stat()\<close>.
\<close>

datatype step = Load | Filter | Impute | Metrics | Build_report | Open_report | Dump_report
  | Start_parquet | Write_parquet | Unlink | Link | Stat






















section \<open>Frames and columns\<close>

lemma rows_set_column_length [simp]: "length (rows (set_column c v df)) = length (rows df)"
  by (simp add: set_column_def)

lemma rows_set_column_nth:
  "i < length (rows df) \<Longrightarrow>
   rows (set_column c v df) ! i =
     (rows df ! i)\<lparr>cells := (cells (rows df ! i))(c := if i < length v then v ! i else NaN)\<rparr>"
  by (simp add: set_column_def)

lemma keys_of_set_column [simp]: "keys_of (set_column c v df) = keys_of df"
  by (rule nth_equalityI) (simp_all add: keys_of_def rows_set_column_nth)

lemma dates_set_column [simp]: "map date (rows (set_column c v df)) = map date (rows df)"
  by (rule nth_equalityI) (simp_all add: rows_set_column_nth)

lemma columns_set_column [simp]:
  "set (columns (set_column c v df)) = insert c (set (columns df))"
  by (auto simp add: set_column_def)

lemma column_length [simp]: "length (column c df) = length (rows df)"
  by (simp add: column_def)

lemma keys_of_length [simp]: "length (keys_of df) = length (rows df)"
  by (simp add: keys_of_def)

lemma column_set_column_other:
  "c' \<noteq> c \<Longrightarrow> column c' (set_column c v df) = column c' df"
  by (rule nth_equalityI) (simp_all add: column_def rows_set_column_nth)

lemma column_set_column_same:
  "length v = length (rows df) \<Longrightarrow> column c (set_column c v df) = v"
  by (rule nth_equalityI) (simp_all add: column_def rows_set_column_nth)

lemma column_nth: "i < length (rows df) \<Longrightarrow> column c df ! i = cells (rows df ! i) c"
  by (simp add: column_def)

lemma rate_column_length [simp]: "length (rate_column a b k df) = length (rows df)"
  by (simp add: rate_column_def)

lemma guarded_rate_column_length [simp]: "length (guarded_rate_column a b df) = length (rows df)"
  by (simp add: guarded_rate_column_def)

lemma rate_column_nth:
  "i < length (rows df) \<Longrightarrow>
   rate_column a b k df ! i = fmul (fdiv (cells (rows df ! i) a) (cells (rows df ! i) b)) (Num k)"
  by (simp add: rate_column_def column_def)

lemma guarded_rate_column_nth:
  "i < length (rows df) \<Longrightarrow>
   guarded_rate_column a b df ! i =
     (if fgreater (cells (rows df ! i) b) (Num 0)
      then fmul (fdiv (cells (rows df ! i) a) (cells (rows df ! i) b)) (Num 100) else Num 0)"
  by (simp add: guarded_rate_column_def column_def)

section \<open>Grouping: groups, positions and alignment\<close>

lemma length_filter_disjoint:
  "(\<And>x. x \<in> set xs \<Longrightarrow> \<not> (P x \<and> Q x)) \<Longrightarrow>
   length (filter P xs) + length (filter Q xs) = length (filter (\<lambda>x. P x \<or> Q x) xs)"
  by (induction xs) auto

lemma length_filter_index:
  "length (filter (\<lambda>i. P (xs ! i)) [0..<length xs]) = length (filter P xs)"
proof -
  have "filter P (map (\<lambda>i. xs ! i) [0..<length xs])
      = map (\<lambda>i. xs ! i) (filter (\<lambda>i. P (xs ! i)) [0..<length xs])"
    by (simp add: filter_map comp_def)
  then have "length (filter P (map (\<lambda>i. xs ! i) [0..<length xs]))
      = length (filter (\<lambda>i. P (xs ! i)) [0..<length xs])"
    by simp
  then show ?thesis by (simp add: map_nth)
qed

lemma length_filter_index_take:
  assumes "i \<le> length xs"
  shows "length (filter (\<lambda>j. P (xs ! j)) [0..<i]) = length (filter P (take i xs))"
proof -
  have "filter (\<lambda>j. P (xs ! j)) [0..<i] = filter (\<lambda>j. P (take i xs ! j)) [0..<i]"
    by (rule filter_cong) simp_all
  moreover have "length (take i xs) = i" using assms by simp
  ultimately show ?thesis
    using length_filter_index [of P "take i xs"] by simp
qed

lemma sum_counts:
  "distinct ks \<Longrightarrow>
   sum_list (map (\<lambda>k. length (filter (\<lambda>x. x = k) xs)) ks)
     = length (filter (\<lambda>x. x \<in> set ks) xs)"
proof (induction ks)
  case Nil
  show ?case by simp
next
  case (Cons k ks)
  have "length (filter (\<lambda>x. x = k) xs) + length (filter (\<lambda>x. x \<in> set ks) xs)
      = length (filter (\<lambda>x. x = k \<or> x \<in> set ks) xs)"
    using Cons.prems by (intro length_filter_disjoint) auto
  then show ?case using Cons by simp
qed




lemma group_index_length:
  "length (group_index keys k) = length (filter (\<lambda>x. x = k) keys)"
  unfolding group_index_def by (rule length_filter_index)

lemma group_values_length:
  "length (group_values keys vals k) = length (filter (\<lambda>x. x = k) keys)"
  by (simp add: group_values_def group_index_length)

lemma rolling_mean_length [simp]: "length (rolling_mean xs) = length xs"
  by (simp add: rolling_mean_def)

lemma ffill_from_length [simp]: "length (ffill_from c xs) = length xs"
  by (induction xs arbitrary: c) simp_all

lemma ffill_length [simp]: "length (ffill xs) = length xs"
  by (simp add: ffill_def)

lemma group_keys_props:
  "sorted (group_keys keys)" "distinct (group_keys keys)" "set (group_keys keys) = set keys"
  by (simp_all add: group_keys_def)

lemma position_in_group_take:
  "i \<le> length keys \<Longrightarrow>
   position_in_group keys i = length (filter (\<lambda>x. x = keys ! i) (take i keys))"
  unfolding position_in_group_def by (rule length_filter_index_take)

lemma position_in_group_less:
  assumes "i < length keys"
  shows "position_in_group keys i < length (filter (\<lambda>x. x = keys ! i) keys)"
proof -
  have "keys = take i keys @ keys ! i # drop (Suc i) keys"
    using assms by (rule id_take_nth_drop)
  then have "filter (\<lambda>x. x = keys ! i) keys
      = filter (\<lambda>x. x = keys ! i) (take i keys @ keys ! i # drop (Suc i) keys)"
    by simp
  then have "length (filter (\<lambda>x. x = keys ! i) keys)
      = length (filter (\<lambda>x. x = keys ! i) (take i keys)) + 1
        + length (filter (\<lambda>x. x = keys ! i) (drop (Suc i) keys))"
    by simp
  then show ?thesis using assms by (simp add: position_in_group_take)
qed

lemma groupby_concat_length:
  assumes "\<And>xs. length (F xs) = length xs"
  shows "length (concat (map (\<lambda>k. F (group_values keys vals k)) (group_keys keys)))
     = length keys"
proof -
  have "length (concat (map (\<lambda>k. F (group_values keys vals k)) (group_keys keys)))
      = sum_list (map (\<lambda>k. length (filter (\<lambda>x. x = k) keys)) (group_keys keys))"
    by (simp add: length_concat comp_def assms group_values_length)
  also have "\<dots> = length (filter (\<lambda>x. x \<in> set (group_keys keys)) keys)"
    using group_keys_props(2) by (rule sum_counts)
  also have "\<dots> = length keys"
    by (simp add: group_keys_props(3))
  finally show ?thesis .
qed


lemma groupby_rolling_mean_length [simp]:
  "length (groupby_rolling_mean keys vals) = length keys"
  unfolding groupby_rolling_mean_def by (rule groupby_concat_length) simp

lemma groupby_transform_length [simp]:
  "length (groupby_transform f keys vals) = length keys"
  by (simp add: groupby_transform_def)


section \<open>Forward fill\<close>

lemma take_filter_upt:
  assumes "i < n" and "P i"
  shows "take (Suc (length (filter P [0..<i]))) (filter P [0..<n]) = filter P [0..<Suc i]"
proof -
  have "[0..<Suc i + (n - Suc i)] = [0..<Suc i] @ [Suc i..<Suc i + (n - Suc i)]"
    by (rule upt_add_eq_append) simp
  then have "[0..<n] = [0..<Suc i] @ [Suc i..<n]"
    using assms(1) by simp
  then have "filter P [0..<n] = filter P [0..<Suc i] @ filter P [Suc i..<n]"
    by (metis filter_append)
  moreover have "length (filter P [0..<Suc i]) = Suc (length (filter P [0..<i]))"
    using assms(2) by simp
  ultimately show ?thesis by simp
qed

lemma ffill_from_present:
  "p < length xs \<Longrightarrow> xs ! p \<noteq> NaN \<Longrightarrow> ffill_from c xs ! p = xs ! p"
proof (induction xs arbitrary: c p)
  case Nil
  then show ?case by simp
next
  case (Cons x xs)
  then show ?case by (cases p) simp_all
qed

lemma ffill_from_none:
  "p < length xs \<Longrightarrow> (\<And>t. t \<le> p \<Longrightarrow> xs ! t = NaN) \<Longrightarrow> ffill_from c xs ! p = c"
proof (induction xs arbitrary: c p)
  case Nil
  then show ?case by simp
next
  case (Cons x xs)
  have x: "x = NaN" using Cons.prems(2) [of 0] by simp
  show ?case
  proof (cases p)
    case 0
    then show ?thesis using x by simp
  next
    case (Suc p')
    have "ffill_from c xs ! p' = c"
    proof (rule Cons.IH)
      show "p' < length xs" using Cons.prems(1) Suc by simp
      show "xs ! t = NaN" if "t \<le> p'" for t
        using Cons.prems(2) [of "Suc t"] that Suc by simp
    qed
    then show ?thesis using x Suc by simp
  qed
qed

lemma ffill_from_carry:
  "p < length xs \<Longrightarrow> q < p \<Longrightarrow> xs ! q \<noteq> NaN \<Longrightarrow>
   (\<And>t. q < t \<Longrightarrow> t \<le> p \<Longrightarrow> xs ! t = NaN) \<Longrightarrow> ffill_from c xs ! p = xs ! q"
proof (induction xs arbitrary: c p q)
  case Nil
  then show ?case by simp
next
  case (Cons x xs)
  obtain p' where p: "p = Suc p'" using Cons.prems(2) by (cases p) auto
  have p'len: "p' < length xs" using Cons.prems(1) p by simp
  show ?case
  proof (cases q)
    case 0
    have x: "x \<noteq> NaN" using Cons.prems(3) 0 by simp
    have "ffill_from x xs ! p' = x"
    proof (rule ffill_from_none [OF p'len])
      show "xs ! t = NaN" if "t \<le> p'" for t
        using Cons.prems(4) [of "Suc t"] that p 0 by simp
    qed
    then show ?thesis using x p 0 by simp
  next
    case (Suc q')
    have step: "ffill_from d xs ! p' = xs ! q'" for d
    proof (rule Cons.IH [OF p'len])
      show "q' < p'" using Cons.prems(2) p Suc by simp
      show "xs ! q' \<noteq> NaN" using Cons.prems(3) Suc by simp
      show "xs ! t = NaN" if "q' < t" "t \<le> p'" for t
        using Cons.prems(4) [of "Suc t"] that p Suc by simp
    qed
    show ?thesis using step p Suc by simp
  qed
qed

lemma group_prefix:
  assumes "i < length keys"
  shows "take (Suc (position_in_group keys i)) (group_index keys (keys ! i))
     = filter (\<lambda>j. keys ! j = keys ! i) [0..<i] @ [i]"
proof -
  have "take (Suc (length (filter (\<lambda>j. keys ! j = keys ! i) [0..<i])))
          (filter (\<lambda>j. keys ! j = keys ! i) [0..<length keys])
      = filter (\<lambda>j. keys ! j = keys ! i) [0..<Suc i]"
    using assms by (rule take_filter_upt) simp
  then show ?thesis by (simp add: position_in_group_def group_index_def)
qed

lemma group_values_nth:
  assumes "i < length keys" and "t \<le> position_in_group keys i"
  shows "group_values keys vals (keys ! i) ! t
     = vals ! ((filter (\<lambda>j. keys ! j = keys ! i) [0..<i] @ [i]) ! t)"
proof -
  have lt: "position_in_group keys i < length (group_index keys (keys ! i))"
    using position_in_group_less [OF assms(1)] by (simp add: group_index_length)
  then have "group_values keys vals (keys ! i) ! t = vals ! (group_index keys (keys ! i) ! t)"
    using assms(2) by (simp add: group_values_def)
  also have "group_index keys (keys ! i) ! t
      = take (Suc (position_in_group keys i)) (group_index keys (keys ! i)) ! t"
    using assms(2) by simp
  finally show ?thesis by (simp only: group_prefix [OF assms(1)])
qed

lemma groupby_ffill_unfold:
  assumes "i < length keys"
  shows "groupby_transform ffill keys vals ! i
     = ffill_from NaN (group_values keys vals (keys ! i)) ! position_in_group keys i"
  using assms by (simp add: groupby_transform_def ffill_def)

lemma position_in_group_in_range:
  assumes "i < length keys"
  shows "position_in_group keys i < length (group_values keys vals (keys ! i))"
  using position_in_group_less [OF assms] by (simp add: group_values_length)

lemma groupby_ffill_present:
  assumes "i < length keys" and "vals ! i \<noteq> NaN"
  shows "groupby_transform ffill keys vals ! i = vals ! i"
proof -
  have here: "group_values keys vals (keys ! i) ! position_in_group keys i = vals ! i"
    using group_values_nth [OF assms(1) order_refl, of vals]
    by (simp add: nth_append position_in_group_def)
  show ?thesis
    unfolding groupby_ffill_unfold [OF assms(1)]
    using ffill_from_present [OF position_in_group_in_range [OF assms(1)], of vals NaN]
      assms(2) here by simp
qed

lemma groupby_ffill_none:
  assumes "i < length keys"
    and none: "\<And>t. t \<le> i \<Longrightarrow> keys ! t = keys ! i \<Longrightarrow> vals ! t = NaN"
  shows "groupby_transform ffill keys vals ! i = NaN"
  unfolding groupby_ffill_unfold [OF assms(1)]
proof (rule ffill_from_none [OF position_in_group_in_range [OF assms(1)]])
  fix t assume t: "t \<le> position_in_group keys i"
  define L where "L = filter (\<lambda>j. keys ! j = keys ! i) [0..<i] @ [i]"
  have len: "length L = Suc (position_in_group keys i)"
    by (simp add: L_def position_in_group_def)
  then have "L ! t \<in> set L" using t by simp
  then have "L ! t \<le> i \<and> keys ! (L ! t) = keys ! i"
    unfolding L_def by auto
  then have "vals ! (L ! t) = NaN" using none by simp
  then show "group_values keys vals (keys ! i) ! t = NaN"
    using group_values_nth [OF assms(1) t, of vals] by (simp add: L_def)
qed

lemma groupby_ffill_carry:
  assumes "i < length keys" and "j < i" and "keys ! j = keys ! i" and "vals ! j \<noteq> NaN"
    and gap: "\<And>t. j < t \<Longrightarrow> t \<le> i \<Longrightarrow> keys ! t = keys ! i \<Longrightarrow> vals ! t = NaN"
  shows "groupby_transform ffill keys vals ! i = vals ! j"
proof -
  define P where "P = (\<lambda>t. keys ! t = keys ! i)"
  define A where "A = filter P [0..<j]"
  define B where "B = filter P [Suc j..<i]"
  have "[0..<j + (i - j)] = [0..<j] @ [j..<j + (i - j)]"
    by (rule upt_add_eq_append) simp
  then have "[0..<i] = [0..<j] @ j # [Suc j..<i]"
    using assms(2) by (simp add: upt_conv_Cons)
  then have "filter P [0..<i] = A @ j # B"
    using assms(3) by (simp add: A_def B_def P_def)
  then have L: "filter (\<lambda>t. keys ! t = keys ! i) [0..<i] @ [i] = A @ j # B @ [i]"
    by (simp add: P_def)
  have p: "position_in_group keys i = length A + Suc (length B)"
    using \<open>filter P [0..<i] = A @ j # B\<close> by (simp add: position_in_group_def P_def)
  have nth: "group_values keys vals (keys ! i) ! t = vals ! ((A @ j # B @ [i]) ! t)"
    if "t \<le> position_in_group keys i" for t
    using group_values_nth [OF assms(1) that, of vals] by (simp only: L)
  have "ffill_from NaN (group_values keys vals (keys ! i)) ! position_in_group keys i
      = group_values keys vals (keys ! i) ! length A"
  proof (rule ffill_from_carry [OF position_in_group_in_range [OF assms(1)]])
    show "length A < position_in_group keys i" by (simp add: p)
    show "group_values keys vals (keys ! i) ! length A \<noteq> NaN"
      using nth [of "length A"] assms(4) by (simp add: p)
    fix t assume t: "length A < t" "t \<le> position_in_group keys i"
    define u where "u = t - Suc (length A)"
    have u: "t = length A + Suc u" "u \<le> length B" using t by (simp_all add: u_def p)
    have el: "(A @ j # B @ [i]) ! t = (B @ [i]) ! u"
      by (simp add: u(1) nth_append)
    have "(B @ [i]) ! u \<in> set (B @ [i])" using u(2) by (intro nth_mem) simp
    then have "j < (B @ [i]) ! u \<and> (B @ [i]) ! u \<le> i \<and> keys ! ((B @ [i]) ! u) = keys ! i"
      using assms(2) by (auto simp add: B_def P_def)
    then have "vals ! ((B @ [i]) ! u) = NaN" using gap by simp
    then show "group_values keys vals (keys ! i) ! t = NaN"
      using nth [OF t(2)] el by simp
  qed
  also have "\<dots> = vals ! j" using nth [of "length A"] by (simp add: p)
  finally show ?thesis by (simp add: groupby_ffill_unfold [OF assms(1)])
qed

section \<open>Properties of the imputation\<close>

lemma ffill_column_shape [simp]:
  "length (rows (ffill_column df c)) = length (rows df)"
  "keys_of (ffill_column df c) = keys_of df"
  "map date (rows (ffill_column df c)) = map date (rows df)"
  "set (columns (ffill_column df c)) = set (columns df)"
  by (auto simp add: ffill_column_def)

lemma zero_fill_column_shape [simp]:
  "length (rows (zero_fill_column df c)) = length (rows df)"
  "keys_of (zero_fill_column df c) = keys_of df"
  "map date (rows (zero_fill_column df c)) = map date (rows df)"
  "set (columns (zero_fill_column df c)) = set (columns df)"
  by (auto simp add: zero_fill_column_def)

lemma foldl_ffill_column_shape [simp]:
  "length (rows (foldl ffill_column df cs)) = length (rows df)"
  "keys_of (foldl ffill_column df cs) = keys_of df"
  "map date (rows (foldl ffill_column df cs)) = map date (rows df)"
  "set (columns (foldl ffill_column df cs)) = set (columns df)"
  by (induction cs arbitrary: df) simp_all

lemma foldl_zero_fill_column_shape [simp]:
  "length (rows (foldl zero_fill_column df cs)) = length (rows df)"
  "keys_of (foldl zero_fill_column df cs) = keys_of df"
  "map date (rows (foldl zero_fill_column df cs)) = map date (rows df)"
  "set (columns (foldl zero_fill_column df cs)) = set (columns df)"
  by (induction cs arbitrary: df) simp_all

lemma fillna_length [simp]: "length (fillna v xs) = length xs"
  by (simp add: fillna_def)

lemma column_ffill_column:
  "column c' (ffill_column df c) =
     (if c' = c \<and> c \<in> set (columns df)
      then groupby_transform ffill (keys_of df) (column c df) else column c' df)"
  by (simp add: ffill_column_def column_set_column_same column_set_column_other)

lemma column_zero_fill_column:
  "column c' (zero_fill_column df c) =
     (if c' = c \<and> c \<in> set (columns df)
      then fillna (Num 0) (column c df) else column c' df)"
  by (simp add: zero_fill_column_def column_set_column_same column_set_column_other)

lemma column_foldl_ffill_column:
  "distinct cs \<Longrightarrow>
   column c' (foldl ffill_column df cs) =
     (if c' \<in> set cs \<and> c' \<in> set (columns df)
      then groupby_transform ffill (keys_of df) (column c' df) else column c' df)"
proof (induction cs arbitrary: df)
  case Nil
  show ?case by simp
next
  case (Cons c cs)
  have "column c' (foldl ffill_column (ffill_column df c) cs) =
     (if c' \<in> set cs \<and> c' \<in> set (columns df)
      then groupby_transform ffill (keys_of df) (column c' (ffill_column df c))
      else column c' (ffill_column df c))"
    using Cons by simp
  then show ?case using Cons.prems by (auto simp add: column_ffill_column)
qed

lemma column_foldl_zero_fill_column:
  "distinct cs \<Longrightarrow>
   column c' (foldl zero_fill_column df cs) =
     (if c' \<in> set cs \<and> c' \<in> set (columns df)
      then fillna (Num 0) (column c' df) else column c' df)"
proof (induction cs arbitrary: df)
  case Nil
  show ?case by simp
next
  case (Cons c cs)
  have "column c' (foldl zero_fill_column (zero_fill_column df c) cs) =
     (if c' \<in> set cs \<and> c' \<in> set (columns df)
      then fillna (Num 0) (column c' (zero_fill_column df c))
      else column c' (zero_fill_column df c))"
    using Cons by simp
  then show ?case using Cons.prems by (auto simp add: column_zero_fill_column)
qed

lemma handle_missing_values_shape [simp]:
  "length (rows (handle_missing_values df)) = length (rows df)"
  "keys_of (handle_missing_values df) = keys_of df"
  "map date (rows (handle_missing_values df)) = map date (rows df)"
  "set (columns (handle_missing_values df)) = set (columns df)"
  by (simp_all add: handle_missing_values_def)

lemma imputed_column_names:
  "distinct cumulative_cols" "distinct daily_cols"
  "c \<in> set cumulative_cols \<Longrightarrow> c \<notin> set daily_cols"
  "c \<in> set cumulative_cols \<Longrightarrow> c \<noteq> ''population''"
  "c \<in> set cumulative_cols \<Longrightarrow> c \<noteq> ''stringency_index''"
  "c \<in> set daily_cols \<Longrightarrow> c \<notin> set cumulative_cols"
  "c \<in> set daily_cols \<Longrightarrow> c \<noteq> ''population''"
  "c \<in> set daily_cols \<Longrightarrow> c \<noteq> ''stringency_index''"
  by (auto simp add: cumulative_cols_def daily_cols_def)

lemma handle_missing_values_cumulative:
  assumes "c \<in> set cumulative_cols" and "c \<in> set (columns df)"
  shows "column c (handle_missing_values df)
     = groupby_transform ffill (keys_of df) (column c df)"
  using assms imputed_column_names(3-5) [OF assms(1)]
  by (simp add: handle_missing_values_def column_ffill_column
      column_foldl_zero_fill_column [OF imputed_column_names(2)]
      column_foldl_ffill_column [OF imputed_column_names(1)])

lemma handle_missing_values_daily:
  assumes "c \<in> set daily_cols" and "c \<in> set (columns df)"
  shows "column c (handle_missing_values df) = fillna (Num 0) (column c df)"
  using assms imputed_column_names(6-8) [OF assms(1)]
  by (simp add: handle_missing_values_def column_ffill_column
      column_foldl_zero_fill_column [OF imputed_column_names(2)]
      column_foldl_ffill_column [OF imputed_column_names(1)])

lemma chronological_nth:
  assumes "chronological df" and "a < b" and "b < length (rows df)"
    and "iso_code (rows df ! a) = iso_code (rows df ! b)"
  shows "date (rows df ! a) < date (rows df ! b)"
  using sorted_wrt_nth_less [OF assms(1) [unfolded chronological_def] assms(2,3)] assms(4)
  by simp

lemma chronological_earlier:
  assumes "chronological df" and "i < length (rows df)" and "j < length (rows df)"
    and "iso_code (rows df ! j) = iso_code (rows df ! i)"
    and "date (rows df ! j) < date (rows df ! i)"
  shows "j < i"
proof (rule ccontr)
  assume "\<not> j < i"
  then consider "j = i" | "i < j" by linarith
  then show False
  proof cases
    case 1
    then show False using assms(5) by simp
  next
    case 2
    then have "date (rows df ! i) < date (rows df ! j)"
      using assms(1,3,4) by (intro chronological_nth) simp_all
    then show False using assms(5) by simp
  qed
qed

lemma same_keys_nth:
  assumes "keys_of df' = keys_of df" and "i < length (rows df)"
  shows "iso_code (rows df' ! i) = iso_code (rows df ! i)"
proof -
  have "length (rows df') = length (rows df)"
    using arg_cong [OF assms(1), of length] by (simp add: keys_of_def)
  then have "keys_of df' ! i = iso_code (rows df' ! i)" "keys_of df ! i = iso_code (rows df ! i)"
    using assms(2) by (simp_all add: keys_of_def)
  then show ?thesis using assms(1) by simp
qed

lemma same_dates_nth:
  assumes "map date (rows df') = map date (rows df)" and "i < length (rows df)"
  shows "date (rows df' ! i) = date (rows df ! i)"
proof -
  have "length (rows df') = length (rows df)"
    using arg_cong [OF assms(1), of length] by simp
  then have "map date (rows df') ! i = date (rows df' ! i)"
      "map date (rows df) ! i = date (rows df ! i)"
    using assms(2) by simp_all
  then show ?thesis using assms(1) by simp
qed

text \<open>
  C5.  On a frame whose rows stand in date order within each entity, imputation gives
  each cell of a cumulative-counter column that the frame has: its own value when it is
  present; when it is missing, the value of the row of the same entity with the latest
  earlier date among those that have a value; and it stays missing when the entity has
  no earlier row with a value.  Only rows of the same entity enter, and the entity and
  the date of the row are kept.
\<close>

theorem forward_fill_per_entity:
  assumes "col \<in> set cumulative_cols" and "col \<in> set (columns df)"
    and "i < length (rows df)" and "chronological df"
  shows "iso_code (rows (handle_missing_values df) ! i) = iso_code (rows df ! i)
   \<and> date (rows (handle_missing_values df) ! i) = date (rows df ! i)
   \<and> (cells (rows df ! i) col \<noteq> NaN \<longrightarrow>
        cells (rows (handle_missing_values df) ! i) col = cells (rows df ! i) col)
   \<and> (cells (rows df ! i) col = NaN
        \<and> (\<forall>s \<in> set (rows df). iso_code s = iso_code (rows df ! i)
               \<and> date s < date (rows df ! i) \<longrightarrow> cells s col = NaN) \<longrightarrow>
        cells (rows (handle_missing_values df) ! i) col = NaN)
   \<and> (\<forall>s \<in> set (rows df).
        cells (rows df ! i) col = NaN
        \<and> iso_code s = iso_code (rows df ! i) \<and> date s < date (rows df ! i)
        \<and> cells s col \<noteq> NaN
        \<and> (\<forall>t \<in> set (rows df). iso_code t = iso_code (rows df ! i)
               \<and> date s < date t \<and> date t < date (rows df ! i) \<longrightarrow> cells t col = NaN) \<longrightarrow>
        cells (rows (handle_missing_values df) ! i) col = cells s col)"
proof -
  define keys where "keys = keys_of df"
  define vals where "vals = column col df"
  define r where "r = rows df ! i"
  have ik: "i < length keys" using assms(3) by (simp add: keys_def)
  have key: "keys ! t = iso_code (rows df ! t)" if "t < length (rows df)" for t
    using that by (simp add: keys_def keys_of_def)
  have val: "vals ! t = cells (rows df ! t) col" if "t < length (rows df)" for t
    using that by (simp add: vals_def column_nth)
  have out: "cells (rows (handle_missing_values df) ! i) col
      = groupby_transform ffill keys vals ! i"
    using column_nth [of i "handle_missing_values df" col] assms(3)
    by (simp add: handle_missing_values_cumulative [OF assms(1,2)] keys_def vals_def)
  have same_key: "iso_code (rows (handle_missing_values df) ! i) = iso_code (rows df ! i)"
    using handle_missing_values_shape(2) assms(3) by (rule same_keys_nth)
  have same_date: "date (rows (handle_missing_values df) ! i) = date (rows df ! i)"
    using handle_missing_values_shape(3) assms(3) by (rule same_dates_nth)
  have present: "cells (rows (handle_missing_values df) ! i) col = cells r col"
    if "cells r col \<noteq> NaN"
    unfolding out using groupby_ffill_present [OF ik, of vals] that val [OF assms(3)]
    by (simp add: r_def)
  have none: "cells (rows (handle_missing_values df) ! i) col = NaN"
    if here: "cells r col = NaN"
      and before: "\<forall>s \<in> set (rows df). iso_code s = iso_code r \<and> date s < date r
            \<longrightarrow> cells s col = NaN"
    unfolding out
  proof (rule groupby_ffill_none [OF ik])
    fix t assume t: "t \<le> i" "keys ! t = keys ! i"
    have tl: "t < length (rows df)" using t(1) assms(3) by simp
    show "vals ! t = NaN"
    proof (cases "t = i")
      case True
      then show ?thesis using here val [OF assms(3)] by (simp add: r_def)
    next
      case False
      then have lt: "t < i" using t(1) by simp
      have iso: "iso_code (rows df ! t) = iso_code r"
        using t(2) key [OF tl] key [OF assms(3)] by (simp add: r_def)
      have "date (rows df ! t) < date r"
        unfolding r_def using assms(4) lt assms(3) iso [unfolded r_def]
        by (rule chronological_nth)
      moreover have "rows df ! t \<in> set (rows df)" using tl by simp
      ultimately have "cells (rows df ! t) col = NaN" using before iso by blast
      then show ?thesis using val [OF tl] by simp
    qed
  qed
  have carry: "cells (rows (handle_missing_values df) ! i) col = cells s col"
    if s: "s \<in> set (rows df)" and here: "cells r col = NaN"
      and iso: "iso_code s = iso_code r" and earlier: "date s < date r"
      and valid: "cells s col \<noteq> NaN"
      and between: "\<forall>t \<in> set (rows df). iso_code t = iso_code r
            \<and> date s < date t \<and> date t < date r \<longrightarrow> cells t col = NaN"
    for s
  proof -
    obtain j where j: "j < length (rows df)" "rows df ! j = s"
      using s by (auto simp add: in_set_conv_nth)
    have ji: "j < i"
      using assms(4,3) j(1) iso earlier unfolding r_def j(2) [symmetric]
      by (rule chronological_earlier)
    have "groupby_transform ffill keys vals ! i = vals ! j"
    proof (rule groupby_ffill_carry [OF ik ji])
      show "keys ! j = keys ! i"
        using key [OF j(1)] key [OF assms(3)] iso j(2) by (simp add: r_def)
      show "vals ! j \<noteq> NaN" using val [OF j(1)] valid j(2) by simp
      fix t assume t: "j < t" "t \<le> i" "keys ! t = keys ! i"
      have tl: "t < length (rows df)" using t(2) assms(3) by simp
      show "vals ! t = NaN"
      proof (cases "t = i")
        case True
        then show ?thesis using here val [OF assms(3)] by (simp add: r_def)
      next
        case False
        then have lt: "t < i" using t(2) by simp
        have isot: "iso_code (rows df ! t) = iso_code r"
          using t(3) key [OF tl] key [OF assms(3)] by (simp add: r_def)
        have "date (rows df ! t) < date r"
          unfolding r_def using assms(4) lt assms(3) isot [unfolded r_def]
          by (rule chronological_nth)
        moreover have "date s < date (rows df ! t)"
          unfolding j(2) [symmetric] using assms(4) t(1) tl
        proof (rule chronological_nth)
          show "iso_code (rows df ! j) = iso_code (rows df ! t)"
            using isot iso j(2) by simp
        qed
        moreover have "rows df ! t \<in> set (rows df)" using tl by simp
        ultimately have "cells (rows df ! t) col = NaN" using between isot by blast
        then show ?thesis using val [OF tl] by simp
      qed
    qed
    then show ?thesis unfolding out using val [OF j(1)] j(2) by simp
  qed
  show ?thesis
    using same_key same_date present none carry unfolding r_def by blast
qed

lemma gap_frame_facts:
  "rows gap_frame = [obs ''X'' 1 (Num 100), obs ''Y'' 1 (Num 7), obs ''X'' 2 NaN,
             obs ''Y'' 2 (Num 9), obs ''X'' 3 NaN, obs ''X'' 4 (Num 140)]"
  "columns gap_frame = [''total_cases'']"
  by (simp_all add: gap_frame_def)

lemma obs_sel:
  "iso_code (obs c d v) = c" "date (obs c d v) = d" "cells (obs c d v) ''total_cases'' = v"
  by (simp_all add: obs_def)

lemma gap_frame_hyps:
  "''total_cases'' \<in> set cumulative_cols" "''total_cases'' \<in> set (columns gap_frame)"
  "chronological gap_frame"
  by (simp_all add: cumulative_cols_def gap_frame_facts chronological_def obs_sel)

theorem forward_fill_per_entity_witness:
  "iso_code (rows (handle_missing_values gap_frame) ! 0) = ''X''
   \<and> cells (rows (handle_missing_values gap_frame) ! 0) ''total_cases'' = Num 100
   \<and> iso_code (rows (handle_missing_values gap_frame) ! 2) = ''X''
   \<and> cells (rows (handle_missing_values gap_frame) ! 2) ''total_cases'' = Num 100
   \<and> iso_code (rows (handle_missing_values gap_frame) ! 4) = ''X''
   \<and> cells (rows (handle_missing_values gap_frame) ! 4) ''total_cases'' = Num 100
   \<and> iso_code (rows (handle_missing_values gap_frame) ! 5) = ''X''
   \<and> cells (rows (handle_missing_values gap_frame) ! 5) ''total_cases'' = Num 140"
proof -
  have len: "length (rows gap_frame) = 6" by (simp add: gap_frame_facts)
  note ff = forward_fill_per_entity [OF gap_frame_hyps(1,2) _ gap_frame_hyps(3)]
  have r0: "iso_code (rows (handle_missing_values gap_frame) ! 0) = ''X''
      \<and> cells (rows (handle_missing_values gap_frame) ! 0) ''total_cases'' = Num 100"
    using ff [of 0] by (simp add: gap_frame_facts obs_sel)
  have r5: "iso_code (rows (handle_missing_values gap_frame) ! 5) = ''X''
      \<and> cells (rows (handle_missing_values gap_frame) ! 5) ''total_cases'' = Num 140"
    using ff [of 5] by (simp add: gap_frame_facts obs_sel)
  have r2: "iso_code (rows (handle_missing_values gap_frame) ! 2) = ''X''
      \<and> cells (rows (handle_missing_values gap_frame) ! 2) ''total_cases'' = Num 100"
    using ff [of 2] by (simp add: gap_frame_facts obs_sel)
  have r4: "iso_code (rows (handle_missing_values gap_frame) ! 4) = ''X''
      \<and> cells (rows (handle_missing_values gap_frame) ! 4) ''total_cases'' = Num 100"
    using ff [of 4] by (simp add: gap_frame_facts obs_sel)
  show ?thesis using r0 r2 r4 r5 by simp
qed

section \<open>Properties of the quality score\<close>

lemma row_get_default_present:
  "\<not> isna (row_get cols r f) \<Longrightarrow> row_get_default cols r f d = cells r f"
  by (simp add: isna_def row_get_def row_get_default_def split: if_splits)

lemma quality_score_unfolded:
  "calculate_data_quality_score cols r =
     max 0 (100
       - (if isna (row_get cols r ''new_cases'') then 15 else 0)
       - (if isna (row_get cols r ''total_cases'') then 15 else 0)
       - (if isna (row_get cols r ''population'') then 15 else 0)
       - (if notna (row_get cols r ''new_cases'') \<and> fless (cells r ''new_cases'') (Num 0)
          then 10 else 0)
       - (if notna (row_get cols r ''case_fatality_rate'')
             \<and> fgreater (cells r ''case_fatality_rate'') (Num 20)
          then 5 else 0))"
  unfolding calculate_data_quality_score_def key_fields_def Let_def missing_penalties.simps notna_def
  by (simp add: row_get_default_present cong: conj_cong)

text \<open>
  C6.  The score of a row is 100 minus 15 for each of new\_cases, total\_cases and
  population that is missing, minus 10 when new\_cases is present and negative, minus 5
  when case\_fatality\_rate is present and above 20, floored at 0.  It lies between 0 and
  100, and a row that misses all three key fields scores 55, less the fatality-rate
  penalty when that one applies.
\<close>

theorem quality_score_formula:
  "calculate_data_quality_score cols r =
     max 0 (100
       - 15 * of_nat (length (filter (\<lambda>f. isna (row_get cols r f))
                        [''new_cases'', ''total_cases'', ''population'']))
       - (if notna (row_get cols r ''new_cases'') \<and> fless (cells r ''new_cases'') (Num 0)
          then 10 else 0)
       - (if notna (row_get cols r ''case_fatality_rate'')
             \<and> fgreater (cells r ''case_fatality_rate'') (Num 20)
          then 5 else 0))
   \<and> 0 \<le> calculate_data_quality_score cols r
   \<and> calculate_data_quality_score cols r \<le> 100
   \<and> (isna (row_get cols r ''new_cases'') \<and> isna (row_get cols r ''total_cases'')
        \<and> isna (row_get cols r ''population'')
      \<longrightarrow> calculate_data_quality_score cols r =
            55 - (if notna (row_get cols r ''case_fatality_rate'')
                     \<and> fgreater (cells r ''case_fatality_rate'') (Num 20)
                  then 5 else 0))"
proof -
  define a where "a = isna (row_get cols r ''new_cases'')"
  define b where "b = isna (row_get cols r ''total_cases'')"
  define c where "c = isna (row_get cols r ''population'')"
  define n where "n = fless (cells r ''new_cases'') (Num 0)"
  define f where "f = (notna (row_get cols r ''case_fatality_rate'')
             \<and> fgreater (cells r ''case_fatality_rate'') (Num 20))"
  have s: "calculate_data_quality_score cols r =
     max 0 (100 - (if a then 15 else 0) - (if b then 15 else 0) - (if c then 15 else 0)
       - (if \<not> a \<and> n then 10 else 0) - (if f then 5 else 0))"
    unfolding quality_score_unfolded a_def b_def c_def n_def f_def notna_def ..
  have k: "of_nat (length (filter (\<lambda>f. isna (row_get cols r f))
                        [''new_cases'', ''total_cases'', ''population''])) =
     (if a then 1 else 0) + (if b then 1 else 0) + (if c then 1 else (0::rat))"
    unfolding a_def b_def c_def by simp
  have na: "notna (row_get cols r ''new_cases'') = (\<not> a)"
    by (simp add: a_def notna_def)
  show ?thesis
    unfolding k s na
    unfolding a_def [symmetric] b_def [symmetric] c_def [symmetric] n_def [symmetric]
      f_def [symmetric]
    by (cases a; cases b; cases c; cases n; cases f; simp)
qed

theorem quality_score_formula_witness:
  "isna (row_get score_cols score_row ''new_cases'')
   \<and> isna (row_get score_cols score_row ''total_cases'')
   \<and> isna (row_get score_cols score_row ''population'')
   \<and> calculate_data_quality_score score_cols score_row = 50"
  using quality_score_formula [of score_cols score_row]
  by (simp add: score_cols_def score_row_def isna_def notna_def row_get_def fgreater_def)

section \<open>Properties of the alert detector\<close>

lemma threshold_values:
  "threshold ''very_high_incidence'' = 300"
  "threshold ''high_incidence'' = 150"
  "threshold ''high_cfr'' = 3"
  by (simp_all add: threshold_def THRESHOLDS_def)

lemma fleq_not_greater: "c \<noteq> NaN \<Longrightarrow> fleq c (Num b) = (\<not> fgreater c (Num b))"
  by (cases c) (simp_all add: fleq_def fgreater_def)

lemma default_zero_exceeds:
  "0 \<le> t \<Longrightarrow>
   (notna (Some (row_get_default cols r f (Num 0)))
      \<and> fgreater (row_get_default cols r f (Num 0)) (Num t))
   = (notna (row_get cols r f) \<and> fgreater (cells r f) (Num t))"
  by (simp add: notna_def isna_def row_get_def row_get_default_def fgreater_def)

lemma default_zero_value:
  "notna (row_get cols r f) \<Longrightarrow> row_get_default cols r f (Num 0) = cells r f"
  by (simp add: notna_def isna_def row_get_def row_get_default_def split: if_splits)

lemma incidence_kind_simps:
  "incidence_kind \<lparr>country_code = c, alert_type = ''very_high_incidence'', alert_date = d,
     metric_value = v, threshold_value = t, severity = s\<rparr>"
  "incidence_kind \<lparr>country_code = c, alert_type = ''high_incidence'', alert_date = d,
     metric_value = v, threshold_value = t, severity = s\<rparr>"
  "\<not> incidence_kind \<lparr>country_code = c, alert_type = ''high_cfr'', alert_date = d,
     metric_value = v, threshold_value = t, severity = s\<rparr>"
  by (simp_all add: incidence_kind_def)

lemma row_alerts_unfolded:
  "row_alerts cols d r =
     (if notna (row_get cols r ''incidence_rate_100k'')
         \<and> fgreater (cells r ''incidence_rate_100k'') (Num 300)
      then [\<lparr>country_code = iso_code r, alert_type = ''very_high_incidence'',
              alert_date = d, metric_value = cells r ''incidence_rate_100k'',
              threshold_value = 300, severity = ''high''\<rparr>]
      else if notna (row_get cols r ''incidence_rate_100k'')
         \<and> fgreater (cells r ''incidence_rate_100k'') (Num 150)
      then [\<lparr>country_code = iso_code r, alert_type = ''high_incidence'',
              alert_date = d, metric_value = cells r ''incidence_rate_100k'',
              threshold_value = 150, severity = ''medium''\<rparr>]
      else [])
     @ (if notna (row_get cols r ''case_fatality_rate'')
         \<and> fgreater (cells r ''case_fatality_rate'') (Num 3)
      then [\<lparr>country_code = iso_code r, alert_type = ''high_cfr'',
              alert_date = d, metric_value = cells r ''case_fatality_rate'',
              threshold_value = 3, severity = ''medium''\<rparr>]
      else [])"
proof -
  define inc where "inc = row_get_default cols r ''incidence_rate_100k'' (Num 0)"
  define cfr where "cfr = row_get_default cols r ''case_fatality_rate'' (Num 0)"
  have i300: "(notna (Some inc) \<and> fgreater inc (Num 300))
      = (notna (row_get cols r ''incidence_rate_100k'')
         \<and> fgreater (cells r ''incidence_rate_100k'') (Num 300))"
    unfolding inc_def by (rule default_zero_exceeds) simp
  have i150: "(notna (Some inc) \<and> fgreater inc (Num 150))
      = (notna (row_get cols r ''incidence_rate_100k'')
         \<and> fgreater (cells r ''incidence_rate_100k'') (Num 150))"
    unfolding inc_def by (rule default_zero_exceeds) simp
  have c3: "(notna (Some cfr) \<and> fgreater cfr (Num 3))
      = (notna (row_get cols r ''case_fatality_rate'')
         \<and> fgreater (cells r ''case_fatality_rate'') (Num 3))"
    unfolding cfr_def by (rule default_zero_exceeds) simp
  have vi: "notna (row_get cols r ''incidence_rate_100k'') \<Longrightarrow> inc = cells r ''incidence_rate_100k''"
    unfolding inc_def by (rule default_zero_value)
  have vc: "notna (row_get cols r ''case_fatality_rate'') \<Longrightarrow> cfr = cells r ''case_fatality_rate''"
    unfolding cfr_def by (rule default_zero_value)
  have "row_alerts cols d r =
     (if notna (Some inc) \<and> fgreater inc (Num 300)
      then [\<lparr>country_code = iso_code r, alert_type = ''very_high_incidence'',
              alert_date = d, metric_value = inc,
              threshold_value = 300, severity = ''high''\<rparr>]
      else if notna (Some inc) \<and> fgreater inc (Num 150)
      then [\<lparr>country_code = iso_code r, alert_type = ''high_incidence'',
              alert_date = d, metric_value = inc,
              threshold_value = 150, severity = ''medium''\<rparr>]
      else [])
     @ (if notna (Some cfr) \<and> fgreater cfr (Num 3)
      then [\<lparr>country_code = iso_code r, alert_type = ''high_cfr'',
              alert_date = d, metric_value = cfr,
              threshold_value = 3, severity = ''medium''\<rparr>]
      else [])"
    unfolding row_alerts_def check_row_def Let_def threshold_values
      inc_def [symmetric] cfr_def [symmetric]
    by (cases "notna (Some inc)"; cases "fgreater inc (Num 300)";
        cases "fgreater inc (Num 150)"; cases "notna (Some cfr) \<and> fgreater cfr (Num 3)"; simp)
  then show ?thesis
    unfolding i300 i150 c3 using vi vc by auto
qed

lemma check_row_append: "check_row cols d alerts r = alerts @ row_alerts cols d r"
  by (simp add: check_row_def row_alerts_def Let_def)

lemma foldl_check_row:
  "foldl (check_row cols d) acc rs = acc @ concat (map (row_alerts cols d) rs)"
proof (induction rs arbitrary: acc)
  case Nil
  show ?case by simp
next
  case (Cons r rs)
  show ?case by (simp add: Cons.IH check_row_append [of cols d acc r])
qed

lemma fold_max_Max: "fold max xs (x::int) = Max (set (x # xs))"
  by (rule Max.set_eq_fold [symmetric])

lemma date_max_Some:
  "rs \<noteq> [] \<Longrightarrow> date_max rs = Some (Max (date ` set rs))"
proof (cases rs)
  case Nil
  assume "rs \<noteq> []"
  with Nil show ?thesis by simp
next
  case (Cons r rs')
  have "fold max (map date rs') (date r) = Max (set (date r # map date rs'))"
    by (rule fold_max_Max)
  then show ?thesis using Cons by simp
qed

lemma is_latest_iff:
  assumes "r \<in> set rs"
  shows "(date r = Max (date ` set rs)) = (\<forall>r' \<in> set rs. date r' \<le> date r)"
proof
  assume "date r = Max (date ` set rs)"
  then show "\<forall>r' \<in> set rs. date r' \<le> date r" by simp
next
  assume a: "\<forall>r' \<in> set rs. date r' \<le> date r"
  have "Max (date ` set rs) = date r"
  proof (rule Max_eqI)
    show "finite (date ` set rs)" by simp
    show "date r \<in> date ` set rs" using assms by simp
    show "\<And>y. y \<in> date ` set rs \<Longrightarrow> y \<le> date r" using a by auto
  qed
  then show "date r = Max (date ` set rs)" by simp
qed

lemma mk_row_sel: "date (mk_row c d i f) = d" "iso_code (mk_row c d i f) = c"
  "cells (mk_row c d i f) ''incidence_rate_100k'' = i"
  "cells (mk_row c d i f) ''case_fatality_rate'' = f"
  by (simp_all add: mk_row_def)

lemma metric_cols_present:
  "row_get metric_cols r ''incidence_rate_100k'' = Some (cells r ''incidence_rate_100k'')"
  "row_get metric_cols r ''case_fatality_rate'' = Some (cells r ''case_fatality_rate'')"
  by (simp_all add: row_get_def metric_cols_def)

lemma row_alerts_banded:
  "row_alerts cols d r =
     (if notna (row_get cols r ''incidence_rate_100k'')
         \<and> fgreater (cells r ''incidence_rate_100k'') (Num 300)
      then [\<lparr>country_code = iso_code r, alert_type = ''very_high_incidence'',
              alert_date = d, metric_value = cells r ''incidence_rate_100k'',
              threshold_value = 300, severity = ''high''\<rparr>]
      else if notna (row_get cols r ''incidence_rate_100k'')
         \<and> fgreater (cells r ''incidence_rate_100k'') (Num 150)
         \<and> fleq (cells r ''incidence_rate_100k'') (Num 300)
      then [\<lparr>country_code = iso_code r, alert_type = ''high_incidence'',
              alert_date = d, metric_value = cells r ''incidence_rate_100k'',
              threshold_value = 150, severity = ''medium''\<rparr>]
      else [])
     @ (if notna (row_get cols r ''case_fatality_rate'')
         \<and> fgreater (cells r ''case_fatality_rate'') (Num 3)
      then [\<lparr>country_code = iso_code r, alert_type = ''high_cfr'',
              alert_date = d, metric_value = cells r ''case_fatality_rate'',
              threshold_value = 3, severity = ''medium''\<rparr>]
      else [])"
proof -
  define p where "p = notna (row_get cols r ''incidence_rate_100k'')"
  define g300 where "g300 = fgreater (cells r ''incidence_rate_100k'') (Num 300)"
  define g150 where "g150 = fgreater (cells r ''incidence_rate_100k'') (Num 150)"
  have fl: "p \<Longrightarrow> fleq (cells r ''incidence_rate_100k'') (Num 300) = (\<not> g300)"
    unfolding p_def g300_def
    by (rule fleq_not_greater) (auto simp add: notna_def isna_def row_get_def split: if_splits)
  show ?thesis
    unfolding row_alerts_unfolded
    unfolding p_def [symmetric] g300_def [symmetric] g150_def [symmetric]
    using fl by (cases p; cases g300; cases g150; simp)
qed

lemma detect_alerts_latest_rows:
  "detect_alerts df =
     concat (map (\<lambda>r. row_alerts (columns df) (date r) r)
       (filter (\<lambda>r. \<forall>r' \<in> set (rows df). date r' \<le> date r) (rows df)))"
proof (cases "rows df = []")
  case True
  then show ?thesis by (simp add: detect_alerts_def)
next
  case False
  define l where "l = Max (date ` set (rows df))"
  have d: "detect_alerts df =
      concat (map (row_alerts (columns df) l) (filter (\<lambda>r. date r = l) (rows df)))"
    by (simp add: detect_alerts_def date_max_Some [OF False] l_def foldl_check_row)
  have f: "filter (\<lambda>r. date r = l) (rows df)
      = filter (\<lambda>r. \<forall>r' \<in> set (rows df). date r' \<le> date r) (rows df)"
    unfolding l_def by (rule filter_cong [OF refl]) (rule is_latest_iff)
  have m: "map (row_alerts (columns df) l) (filter (\<lambda>r. date r = l) (rows df))
      = map (\<lambda>r. row_alerts (columns df) (date r) r) (filter (\<lambda>r. date r = l) (rows df))"
    by (rule map_cong [OF refl]) simp
  show ?thesis unfolding d m unfolding f ..
qed

subsection \<open>Which rows the detector checks\<close>

text \<open>
  C1, as it holds of the code.  The detector checks the rows dated at the latest date of the whole
  frame, and only those: an alert is returned exactly when some row carries a date that
  no row of the frame exceeds and the check of that row yields the alert.  The latest
  row of an entity is therefore checked only when no other entity has a later row; an
  entity whose data stop earlier is not checked at all.
\<close>

theorem detect_alerts_global_latest:
  "a \<in> set (detect_alerts df) \<longleftrightarrow>
     (\<exists>r \<in> set (rows df). (\<forall>r' \<in> set (rows df). date r' \<le> date r)
        \<and> a \<in> set (row_alerts (columns df) (date r) r))"
proof (cases "rows df = []")
  case True
  then show ?thesis by (simp add: detect_alerts_def)
next
  case False
  define l where "l = Max (date ` set (rows df))"
  have d: "detect_alerts df =
      concat (map (row_alerts (columns df) l) (filter (\<lambda>r. date r = l) (rows df)))"
    by (simp add: detect_alerts_def date_max_Some [OF False] l_def foldl_check_row)
  have "a \<in> set (detect_alerts df) \<longleftrightarrow>
      (\<exists>r \<in> set (rows df). date r = l \<and> a \<in> set (row_alerts (columns df) (date r) r))"
    unfolding d by auto
  also have "\<dots> \<longleftrightarrow> (\<exists>r \<in> set (rows df). (\<forall>r' \<in> set (rows df). date r' \<le> date r)
        \<and> a \<in> set (row_alerts (columns df) (date r) r))"
    unfolding l_def using is_latest_iff [of _ "rows df"] by blast
  finally show ?thesis .
qed

lemma lagging_rows: "rows lagging_frame = [mk_row ''DEU'' 1 (Num 10) (Num 1), mk_row ''DEU'' 2 (Num 200) (Num 1),
             mk_row ''ITA'' 1 (Num 350) (Num 4)]" "columns lagging_frame = metric_cols"
  by (simp_all add: lagging_frame_def)

theorem detect_alerts_lagging_counterexample:
  "row_alerts (columns lagging_frame) 1 (mk_row ''ITA'' 1 (Num 350) (Num 4)) =
     [\<lparr>country_code = ''ITA'', alert_type = ''very_high_incidence'',
        alert_date = 1, metric_value = Num 350, threshold_value = 300, severity = ''high''\<rparr>,
      \<lparr>country_code = ''ITA'', alert_type = ''high_cfr'',
        alert_date = 1, metric_value = Num 4, threshold_value = 3, severity = ''medium''\<rparr>]
   \<and> detect_alerts lagging_frame =
     [\<lparr>country_code = ''DEU'', alert_type = ''high_incidence'',
        alert_date = 2, metric_value = Num 200, threshold_value = 150, severity = ''medium''\<rparr>]"
  by (simp add: detect_alerts_def lagging_rows mk_row_sel check_row_append row_alerts_unfolded
      metric_cols_present notna_def isna_def fgreater_def)

theorem detect_alerts_global_latest_witness:
  "\<lparr>country_code = ''DEU'', alert_type = ''high_incidence'',
        alert_date = 2, metric_value = Num 200, threshold_value = 150, severity = ''medium''\<rparr>
     \<in> set (detect_alerts lagging_frame)
   \<and> \<lparr>country_code = ''ITA'', alert_type = ''very_high_incidence'',
        alert_date = 1, metric_value = Num 350, threshold_value = 300, severity = ''high''\<rparr>
     \<notin> set (detect_alerts lagging_frame)"
  unfolding detect_alerts_global_latest
  by (simp add: lagging_rows mk_row_sel row_alerts_unfolded
      metric_cols_present notna_def isna_def fgreater_def)

text \<open>
  C7.  The detector returns, for the rows it evaluates (those dated at the latest date
  of the frame), taken in row order, the alerts of each row: the very\_high\_incidence
  alert (severity high, threshold 300) alone when the incidence exceeds 300, the
  high\_incidence alert (severity medium, threshold 150) alone when it exceeds 150 and
  is at most 300, and no incidence alert otherwise, in particular none when the column
  is absent or the value is missing; then the high\_cfr alert (threshold 3, severity
  medium) exactly when the fatality rate is present and exceeds 3, whatever the
  incidence.  Nothing else is returned, and a row never gets both incidence alerts.
\<close>

theorem detect_alerts_by_threshold:
  "detect_alerts df =
     concat (map (\<lambda>r.
         (if notna (row_get (columns df) r ''incidence_rate_100k'')
             \<and> fgreater (cells r ''incidence_rate_100k'') (Num 300)
          then [\<lparr>country_code = iso_code r, alert_type = ''very_high_incidence'',
                  alert_date = date r, metric_value = cells r ''incidence_rate_100k'',
                  threshold_value = 300, severity = ''high''\<rparr>]
          else if notna (row_get (columns df) r ''incidence_rate_100k'')
             \<and> fgreater (cells r ''incidence_rate_100k'') (Num 150)
             \<and> fleq (cells r ''incidence_rate_100k'') (Num 300)
          then [\<lparr>country_code = iso_code r, alert_type = ''high_incidence'',
                  alert_date = date r, metric_value = cells r ''incidence_rate_100k'',
                  threshold_value = 150, severity = ''medium''\<rparr>]
          else [])
         @ (if notna (row_get (columns df) r ''case_fatality_rate'')
             \<and> fgreater (cells r ''case_fatality_rate'') (Num 3)
          then [\<lparr>country_code = iso_code r, alert_type = ''high_cfr'',
                  alert_date = date r, metric_value = cells r ''case_fatality_rate'',
                  threshold_value = 3, severity = ''medium''\<rparr>]
          else []))
       (filter (\<lambda>r. \<forall>r' \<in> set (rows df). date r' \<le> date r) (rows df)))
   \<and> filter incidence_kind (row_alerts cols d r) =
     (if notna (row_get cols r ''incidence_rate_100k'')
         \<and> fgreater (cells r ''incidence_rate_100k'') (Num 300)
      then [\<lparr>country_code = iso_code r, alert_type = ''very_high_incidence'',
              alert_date = d, metric_value = cells r ''incidence_rate_100k'',
              threshold_value = 300, severity = ''high''\<rparr>]
      else if notna (row_get cols r ''incidence_rate_100k'')
         \<and> fgreater (cells r ''incidence_rate_100k'') (Num 150)
         \<and> fleq (cells r ''incidence_rate_100k'') (Num 300)
      then [\<lparr>country_code = iso_code r, alert_type = ''high_incidence'',
              alert_date = d, metric_value = cells r ''incidence_rate_100k'',
              threshold_value = 150, severity = ''medium''\<rparr>]
      else [])
   \<and> filter (\<lambda>a. \<not> incidence_kind a) (row_alerts cols d r) =
     (if notna (row_get cols r ''case_fatality_rate'')
         \<and> fgreater (cells r ''case_fatality_rate'') (Num 3)
      then [\<lparr>country_code = iso_code r, alert_type = ''high_cfr'',
              alert_date = d, metric_value = cells r ''case_fatality_rate'',
              threshold_value = 3, severity = ''medium''\<rparr>]
      else [])
   \<and> length (filter incidence_kind (row_alerts cols d r)) \<le> 1"
proof -
  have whole: "detect_alerts df =
     concat (map (\<lambda>r.
         (if notna (row_get (columns df) r ''incidence_rate_100k'')
             \<and> fgreater (cells r ''incidence_rate_100k'') (Num 300)
          then [\<lparr>country_code = iso_code r, alert_type = ''very_high_incidence'',
                  alert_date = date r, metric_value = cells r ''incidence_rate_100k'',
                  threshold_value = 300, severity = ''high''\<rparr>]
          else if notna (row_get (columns df) r ''incidence_rate_100k'')
             \<and> fgreater (cells r ''incidence_rate_100k'') (Num 150)
             \<and> fleq (cells r ''incidence_rate_100k'') (Num 300)
          then [\<lparr>country_code = iso_code r, alert_type = ''high_incidence'',
                  alert_date = date r, metric_value = cells r ''incidence_rate_100k'',
                  threshold_value = 150, severity = ''medium''\<rparr>]
          else [])
         @ (if notna (row_get (columns df) r ''case_fatality_rate'')
             \<and> fgreater (cells r ''case_fatality_rate'') (Num 3)
          then [\<lparr>country_code = iso_code r, alert_type = ''high_cfr'',
                  alert_date = date r, metric_value = cells r ''case_fatality_rate'',
                  threshold_value = 3, severity = ''medium''\<rparr>]
          else []))
       (filter (\<lambda>r. \<forall>r' \<in> set (rows df). date r' \<le> date r) (rows df)))"
    unfolding detect_alerts_latest_rows [of df] row_alerts_banded ..
  define p where "p = notna (row_get cols r ''incidence_rate_100k'')"
  define g300 where "g300 = fgreater (cells r ''incidence_rate_100k'') (Num 300)"
  define b150 where "b150 = (fgreater (cells r ''incidence_rate_100k'') (Num 150)
      \<and> fleq (cells r ''incidence_rate_100k'') (Num 300))"
  define c where "c = (notna (row_get cols r ''case_fatality_rate'')
         \<and> fgreater (cells r ''case_fatality_rate'') (Num 3))"
  have one: "filter incidence_kind (row_alerts cols d r) =
     (if notna (row_get cols r ''incidence_rate_100k'')
         \<and> fgreater (cells r ''incidence_rate_100k'') (Num 300)
      then [\<lparr>country_code = iso_code r, alert_type = ''very_high_incidence'',
              alert_date = d, metric_value = cells r ''incidence_rate_100k'',
              threshold_value = 300, severity = ''high''\<rparr>]
      else if notna (row_get cols r ''incidence_rate_100k'')
         \<and> fgreater (cells r ''incidence_rate_100k'') (Num 150)
         \<and> fleq (cells r ''incidence_rate_100k'') (Num 300)
      then [\<lparr>country_code = iso_code r, alert_type = ''high_incidence'',
              alert_date = d, metric_value = cells r ''incidence_rate_100k'',
              threshold_value = 150, severity = ''medium''\<rparr>]
      else [])
   \<and> filter (\<lambda>a. \<not> incidence_kind a) (row_alerts cols d r) =
     (if notna (row_get cols r ''case_fatality_rate'')
         \<and> fgreater (cells r ''case_fatality_rate'') (Num 3)
      then [\<lparr>country_code = iso_code r, alert_type = ''high_cfr'',
              alert_date = d, metric_value = cells r ''case_fatality_rate'',
              threshold_value = 3, severity = ''medium''\<rparr>]
      else [])
   \<and> length (filter incidence_kind (row_alerts cols d r)) \<le> 1"
    unfolding row_alerts_banded
    unfolding conj_assoc [symmetric] b150_def [symmetric]
    unfolding conj_assoc p_def [symmetric] g300_def [symmetric] c_def [symmetric]
    by (cases p; cases g300; cases b150; cases c; simp add: incidence_kind_simps)
  show ?thesis using whole one by (rule conjI)
qed

lemma breach_rows:
  "rows breach_frame = [mk_row ''DEU'' 1 (Num 400) (Num 9), mk_row ''DEU'' 2 (Num 200) (Num 1),
             mk_row ''ITA'' 2 (Num 350) (Num 4), mk_row ''ESP'' 2 NaN (Num 2)]"
  "columns breach_frame = metric_cols"
  by (simp_all add: breach_frame_def)

theorem detect_alerts_by_threshold_witness:
  "detect_alerts breach_frame =
     [\<lparr>country_code = ''DEU'', alert_type = ''high_incidence'',
        alert_date = 2, metric_value = Num 200, threshold_value = 150, severity = ''medium''\<rparr>,
      \<lparr>country_code = ''ITA'', alert_type = ''very_high_incidence'',
        alert_date = 2, metric_value = Num 350, threshold_value = 300, severity = ''high''\<rparr>,
      \<lparr>country_code = ''ITA'', alert_type = ''high_cfr'',
        alert_date = 2, metric_value = Num 4, threshold_value = 3, severity = ''medium''\<rparr>]"
proof -
  have "detect_alerts breach_frame =
     concat (map (\<lambda>r.
         (if notna (row_get (columns breach_frame) r ''incidence_rate_100k'')
             \<and> fgreater (cells r ''incidence_rate_100k'') (Num 300)
          then [\<lparr>country_code = iso_code r, alert_type = ''very_high_incidence'',
                  alert_date = date r, metric_value = cells r ''incidence_rate_100k'',
                  threshold_value = 300, severity = ''high''\<rparr>]
          else if notna (row_get (columns breach_frame) r ''incidence_rate_100k'')
             \<and> fgreater (cells r ''incidence_rate_100k'') (Num 150)
             \<and> fleq (cells r ''incidence_rate_100k'') (Num 300)
          then [\<lparr>country_code = iso_code r, alert_type = ''high_incidence'',
                  alert_date = date r, metric_value = cells r ''incidence_rate_100k'',
                  threshold_value = 150, severity = ''medium''\<rparr>]
          else [])
         @ (if notna (row_get (columns breach_frame) r ''case_fatality_rate'')
             \<and> fgreater (cells r ''case_fatality_rate'') (Num 3)
          then [\<lparr>country_code = iso_code r, alert_type = ''high_cfr'',
                  alert_date = date r, metric_value = cells r ''case_fatality_rate'',
                  threshold_value = 3, severity = ''medium''\<rparr>]
          else []))
       (filter (\<lambda>r. \<forall>r' \<in> set (rows breach_frame). date r' \<le> date r)
          (rows breach_frame)))"
    using detect_alerts_by_threshold [of breach_frame] by (rule conjunct1)
  then show ?thesis
    by (simp add: breach_rows mk_row_sel metric_cols_present notna_def isna_def
        fgreater_def fleq_def)
qed

section \<open>Properties of alert persistence\<close>

lemma new_row_sel [simp]:
  "is_active (new_row a) = None"
  "created_at (new_row a) = None"
  "resolved_at (new_row a) = None"
  "key_of (new_row a) = key_of a"
  by (simp_all add: new_row_def key_of_def)

lemma key_of_deactivated [simp]:
  "key_of (s\<lparr>is_active := Some False, resolved_at := Some now\<rparr>) = key_of s"
  by (simp add: key_of_def)

lemma deactivate_key:
  "deactivate now table a =
     map (\<lambda>s. if key_of s = key_of a \<and> is_active s = Some True
               then s\<lparr>is_active := Some False, resolved_at := Some now\<rparr> else s) table"
  by (simp add: deactivate_def key_of_def)

lemma foldl_deactivate:
  "foldl (deactivate now) table alerts =
     map (\<lambda>s. if key_of s \<in> key_of ` set alerts \<and> is_active s = Some True
               then s\<lparr>is_active := Some False, resolved_at := Some now\<rparr> else s) table"
proof (induction alerts arbitrary: table)
  case Nil
  show ?case by simp
next
  case (Cons a alerts)
  have "foldl (deactivate now) table (a # alerts)
      = foldl (deactivate now) (deactivate now table a) alerts"
    by simp
  also have "\<dots> = map (\<lambda>s. if key_of s \<in> key_of ` set alerts \<and> is_active s = Some True
               then s\<lparr>is_active := Some False, resolved_at := Some now\<rparr> else s)
         (deactivate now table a)"
    by (rule Cons.IH)
  also have "\<dots> = map (\<lambda>s. if key_of s \<in> key_of ` set (a # alerts) \<and> is_active s = Some True
               then s\<lparr>is_active := Some False, resolved_at := Some now\<rparr> else s) table"
    unfolding deactivate_key map_map
    by (rule map_cong [OF refl]) auto
  finally show ?case .
qed

lemma active_foldl_deactivate:
  "active (foldl (deactivate now) table alerts) =
     filter (\<lambda>s. is_active s = Some True \<and> key_of s \<notin> key_of ` set alerts) table"
  unfolding foldl_deactivate active_def
  by (induction table) auto

lemma active_new_rows: "active (map new_row alerts) = []"
  by (simp add: active_def filter_empty_conv)

lemma active_append: "active (xs @ ys) = active xs @ active ys"
  by (simp add: active_def)

lemma active_detection_pass:
  "active (detection_pass now df table) =
     filter (\<lambda>s. is_active s = Some True \<and> key_of s \<notin> key_of ` set (detect_alerts df)) table"
proof (cases "detect_alerts df = []")
  case True
  then show ?thesis by (simp add: detection_pass_def active_def)
next
  case False
  then show ?thesis
    by (simp add: detection_pass_def save_alerts_def Let_def active_append
        active_foldl_deactivate active_new_rows)
qed

lemma calm_rows:
  "rows calm_frame = [mk_row ''DEU'' 2 (Num 200) (Num 1), mk_row ''ITA'' 2 (Num 10) (Num 1)]"
  "columns calm_frame = metric_cols"
  by (simp_all add: calm_frame_def)

lemma detect_alerts_calm:
  "detect_alerts calm_frame =
     [\<lparr>country_code = ''DEU'', alert_type = ''high_incidence'',
        alert_date = 2, metric_value = Num 200, threshold_value = 150, severity = ''medium''\<rparr>]"
  by (simp add: detect_alerts_def calm_rows mk_row_sel check_row_append row_alerts_unfolded
      metric_cols_present notna_def isna_def fgreater_def)

text \<open>
  C3.  The claim fails of the code.  The lines a detection-and-save pass inserts have
  \<open>is_active\<close> NULL, so no pass ever makes an alert active: after any pass, from any
  table, the active alerts are those that were active before and whose entity and kind
  the pass did not detect.  Hence a pair that breaches has no active alert, and an
  active alert of a pair that no longer breaches stays active.  Run twice from the empty
  table on a frame whose latest row has DEU at incidence 200, the pass leaves two lines
  for DEU and high\_incidence, neither active and neither resolved, where the claim
  requires exactly one active alert.
\<close>

theorem detection_pass_never_active:
  "active (detection_pass now df table) =
     filter (\<lambda>s. is_active s = Some True \<and> key_of s \<notin> key_of ` set (detect_alerts df)) table
   \<and> detect_alerts calm_frame =
     [\<lparr>country_code = ''DEU'', alert_type = ''high_incidence'',
        alert_date = 2, metric_value = Num 200, threshold_value = 150, severity = ''medium''\<rparr>]
   \<and> detection_pass 6 calm_frame (detection_pass 5 calm_frame []) =
     [\<lparr>country_code = ''DEU'', alert_type = ''high_incidence'',
        alert_date = 2, metric_value = Num 200, threshold_value = 150, severity = ''medium'',
        is_active = None, created_at = None, resolved_at = None\<rparr>,
      \<lparr>country_code = ''DEU'', alert_type = ''high_incidence'',
        alert_date = 2, metric_value = Num 200, threshold_value = 150, severity = ''medium'',
        is_active = None, created_at = None, resolved_at = None\<rparr>]
   \<and> active (detection_pass 6 calm_frame (detection_pass 5 calm_frame [])) = []"
proof -
  have two: "detection_pass 6 calm_frame (detection_pass 5 calm_frame []) =
     [\<lparr>country_code = ''DEU'', alert_type = ''high_incidence'',
        alert_date = 2, metric_value = Num 200, threshold_value = 150, severity = ''medium'',
        is_active = None, created_at = None, resolved_at = None\<rparr>,
      \<lparr>country_code = ''DEU'', alert_type = ''high_incidence'',
        alert_date = 2, metric_value = Num 200, threshold_value = 150, severity = ''medium'',
        is_active = None, created_at = None, resolved_at = None\<rparr>]"
    by (simp add: detection_pass_def detect_alerts_calm save_alerts_def deactivate_def
        new_row_def)
  have none: "active (detection_pass 6 calm_frame (detection_pass 5 calm_frame [])) = []"
    unfolding two by (simp add: active_def)
  show ?thesis using active_detection_pass detect_alerts_calm two none by blast
qed

section \<open>Properties of the derived metrics\<close>

lemma rate_column_cong:
  "column a df' = column a df \<Longrightarrow> column b df' = column b df \<Longrightarrow>
   rate_column a b k df' = rate_column a b k df"
  by (simp add: rate_column_def)

lemma guarded_rate_column_cong:
  "column a df' = column a df \<Longrightarrow> column b df' = column b df \<Longrightarrow>
   guarded_rate_column a b df' = guarded_rate_column a b df"
  by (simp add: guarded_rate_column_def)

lemma add_incidence_rate_shape [simp]:
  "length (rows (add_incidence_rate df)) = length (rows df)"
  "keys_of (add_incidence_rate df) = keys_of df"
  "map date (rows (add_incidence_rate df)) = map date (rows df)"
  by (simp_all add: add_incidence_rate_def)

lemma add_death_rate_shape [simp]:
  "length (rows (add_death_rate df)) = length (rows df)"
  "keys_of (add_death_rate df) = keys_of df"
  "map date (rows (add_death_rate df)) = map date (rows df)"
  by (simp_all add: add_death_rate_def)

lemma add_case_fatality_rate_shape [simp]:
  "length (rows (add_case_fatality_rate df)) = length (rows df)"
  "keys_of (add_case_fatality_rate df) = keys_of df"
  "map date (rows (add_case_fatality_rate df)) = map date (rows df)"
  by (simp_all add: add_case_fatality_rate_def)

lemma add_vaccination_rate_shape [simp]:
  "length (rows (add_vaccination_rate df)) = length (rows df)"
  "keys_of (add_vaccination_rate df) = keys_of df"
  "map date (rows (add_vaccination_rate df)) = map date (rows df)"
  by (simp_all add: add_vaccination_rate_def)

lemma rolling_column_shape [simp]:
  "length (rows (rolling_column df c)) = length (rows df)"
  "keys_of (rolling_column df c) = keys_of df"
  "map date (rows (rolling_column df c)) = map date (rows df)"
  by (simp_all add: rolling_column_def)

lemma foldl_rolling_column_shape [simp]:
  "length (rows (foldl rolling_column df cs)) = length (rows df)"
  "keys_of (foldl rolling_column df cs) = keys_of df"
  "map date (rows (foldl rolling_column df cs)) = map date (rows df)"
  by (induction cs arbitrary: df) simp_all

lemma calculate_derived_metrics_shape [simp]:
  "length (rows (calculate_derived_metrics df)) = length (rows df)"
  "keys_of (calculate_derived_metrics df) = keys_of df"
  "map date (rows (calculate_derived_metrics df)) = map date (rows df)"
  by (simp_all add: calculate_derived_metrics_def)

lemma column_add_incidence_rate:
  "column c (add_incidence_rate df) =
     (if c = ''incidence_rate_100k'' \<and> ''new_cases'' \<in> set (columns df)
           \<and> ''population'' \<in> set (columns df)
      then rate_column ''new_cases'' ''population'' 100000 df else column c df)"
  by (simp add: add_incidence_rate_def column_set_column_same column_set_column_other)

lemma column_add_death_rate:
  "column c (add_death_rate df) =
     (if c = ''death_rate_100k'' \<and> ''new_deaths'' \<in> set (columns df)
           \<and> ''population'' \<in> set (columns df)
      then rate_column ''new_deaths'' ''population'' 100000 df else column c df)"
  by (simp add: add_death_rate_def column_set_column_same column_set_column_other)

lemma column_add_case_fatality_rate:
  "column c (add_case_fatality_rate df) =
     (if c = ''case_fatality_rate'' \<and> ''total_deaths'' \<in> set (columns df)
           \<and> ''total_cases'' \<in> set (columns df)
      then guarded_rate_column ''total_deaths'' ''total_cases'' df else column c df)"
  by (simp add: add_case_fatality_rate_def column_set_column_same column_set_column_other)

lemma column_add_vaccination_rate:
  "column c (add_vaccination_rate df) =
     (if c = ''vaccination_rate'' \<and> ''people_fully_vaccinated'' \<in> set (columns df)
           \<and> ''population'' \<in> set (columns df)
      then guarded_rate_column ''people_fully_vaccinated'' ''population'' df else column c df)"
  by (simp add: add_vaccination_rate_def column_set_column_same column_set_column_other)

lemma column_rolling_column:
  "column c (rolling_column df col) =
     (if c = col @ ''_7day_avg'' \<and> col \<in> set (columns df)
      then groupby_rolling_mean (keys_of df) (column col df) else column c df)"
  by (simp add: rolling_column_def column_set_column_same column_set_column_other)

lemma columns_add_incidence_rate:
  "set (columns (add_incidence_rate df)) =
     (if ''new_cases'' \<in> set (columns df) \<and> ''population'' \<in> set (columns df)
      then insert ''incidence_rate_100k'' (set (columns df)) else set (columns df))"
  by (simp add: add_incidence_rate_def)

lemma columns_add_death_rate:
  "set (columns (add_death_rate df)) =
     (if ''new_deaths'' \<in> set (columns df) \<and> ''population'' \<in> set (columns df)
      then insert ''death_rate_100k'' (set (columns df)) else set (columns df))"
  by (simp add: add_death_rate_def)

lemma columns_add_case_fatality_rate:
  "set (columns (add_case_fatality_rate df)) =
     (if ''total_deaths'' \<in> set (columns df) \<and> ''total_cases'' \<in> set (columns df)
      then insert ''case_fatality_rate'' (set (columns df)) else set (columns df))"
  by (simp add: add_case_fatality_rate_def)

lemma columns_add_vaccination_rate:
  "set (columns (add_vaccination_rate df)) =
     (if ''people_fully_vaccinated'' \<in> set (columns df) \<and> ''population'' \<in> set (columns df)
      then insert ''vaccination_rate'' (set (columns df)) else set (columns df))"
  by (simp add: add_vaccination_rate_def)

lemma columns_rolling_column:
  "set (columns (rolling_column df col)) =
     (if col \<in> set (columns df)
      then insert (col @ ''_7day_avg'') (set (columns df)) else set (columns df))"
  by (simp add: rolling_column_def)

lemmas metric_step_columns =
  column_add_incidence_rate column_add_death_rate column_add_case_fatality_rate
  column_add_vaccination_rate column_rolling_column
  columns_add_incidence_rate columns_add_death_rate columns_add_case_fatality_rate
  columns_add_vaccination_rate columns_rolling_column

lemma calculate_derived_metrics_raw:
  assumes "c \<noteq> ''incidence_rate_100k''" "c \<noteq> ''death_rate_100k''"
    "c \<noteq> ''case_fatality_rate''" "c \<noteq> ''vaccination_rate''"
    "c \<noteq> ''new_cases_7day_avg''" "c \<noteq> ''new_deaths_7day_avg''"
    "c \<noteq> ''incidence_rate_100k_7day_avg''"
  shows "column c (calculate_derived_metrics df) = column c df"
    and "c \<in> set (columns (calculate_derived_metrics df)) \<longleftrightarrow> c \<in> set (columns df)"
  using assms
  by (simp_all add: calculate_derived_metrics_def rolling_cols_def metric_step_columns)

lemma calculate_derived_metrics_incidence:
  assumes "''new_cases'' \<in> set (columns df)" "''population'' \<in> set (columns df)"
  shows "column ''incidence_rate_100k'' (calculate_derived_metrics df)
     = rate_column ''new_cases'' ''population'' 100000 df"
    and "''incidence_rate_100k'' \<in> set (columns (calculate_derived_metrics df))"
  using assms
  by (simp_all add: calculate_derived_metrics_def rolling_cols_def metric_step_columns)

lemma calculate_derived_metrics_death_rate:
  assumes "''new_deaths'' \<in> set (columns df)" "''population'' \<in> set (columns df)"
  shows "column ''death_rate_100k'' (calculate_derived_metrics df)
     = rate_column ''new_deaths'' ''population'' 100000 df"
    and "''death_rate_100k'' \<in> set (columns (calculate_derived_metrics df))"
proof -
  have "rate_column ''new_deaths'' ''population'' 100000 (add_incidence_rate df)
      = rate_column ''new_deaths'' ''population'' 100000 df"
    by (rule rate_column_cong) (simp_all add: column_add_incidence_rate)
  then show "column ''death_rate_100k'' (calculate_derived_metrics df)
     = rate_column ''new_deaths'' ''population'' 100000 df"
    using assms
    by (simp add: calculate_derived_metrics_def rolling_cols_def metric_step_columns)
  show "''death_rate_100k'' \<in> set (columns (calculate_derived_metrics df))"
    using assms
    by (simp add: calculate_derived_metrics_def rolling_cols_def metric_step_columns)
qed


lemma calculate_derived_metrics_vaccination:
  assumes "''people_fully_vaccinated'' \<in> set (columns df)" "''population'' \<in> set (columns df)"
  shows "column ''vaccination_rate'' (calculate_derived_metrics df)
     = guarded_rate_column ''people_fully_vaccinated'' ''population'' df"
    and "''vaccination_rate'' \<in> set (columns (calculate_derived_metrics df))"
proof -
  define Z where "Z = foldl rolling_column
          (add_case_fatality_rate (add_death_rate (add_incidence_rate df))) rolling_cols"
  have cols: "column ''people_fully_vaccinated'' Z = column ''people_fully_vaccinated'' df"
      "column ''population'' Z = column ''population'' df"
    by (simp_all add: Z_def rolling_cols_def metric_step_columns)
  have mem: "''people_fully_vaccinated'' \<in> set (columns Z)" "''population'' \<in> set (columns Z)"
    using assms by (simp_all add: Z_def rolling_cols_def metric_step_columns)
  have "guarded_rate_column ''people_fully_vaccinated'' ''population'' Z
      = guarded_rate_column ''people_fully_vaccinated'' ''population'' df"
    using cols by (rule guarded_rate_column_cong)
  then show "column ''vaccination_rate'' (calculate_derived_metrics df)
     = guarded_rate_column ''people_fully_vaccinated'' ''population'' df"
    using mem by (simp add: calculate_derived_metrics_def Z_def [symmetric]
        column_add_vaccination_rate)
  show "''vaccination_rate'' \<in> set (columns (calculate_derived_metrics df))"
    using mem by (simp add: calculate_derived_metrics_def Z_def [symmetric]
        columns_add_vaccination_rate)
qed


subsection \<open>The rates per 100,000\<close>

lemma rates_frame_facts:
  "rows rates_frame = [raw_row ''FRA'' 1 NaN NaN NaN (Num 5) (Num 10),
             raw_row ''FRA'' 2 (Num 5) (Num 0) (Num 100) NaN (Num 10),
             raw_row ''FRA'' 3 (Num 5) (Num 1000) (Num 200) (Num 4) NaN,
             raw_row ''FRA'' 4 (Num 5) (Num (- 1000)) (Num 200) (Num 4) (Num 10)]"
  "columns rates_frame = raw_cols"
  by (simp_all add: rates_frame_def)

lemma raw_cols_mem:
  "''population'' \<in> set raw_cols" "''total_cases'' \<in> set raw_cols"
  "''new_cases'' \<in> set raw_cols" "''total_deaths'' \<in> set raw_cols"
  "''people_fully_vaccinated'' \<in> set raw_cols" "''new_deaths'' \<notin> set raw_cols"
  by (simp_all add: raw_cols_def)

lemma raw_row_sel:
  "iso_code (raw_row c d nc pop tc td pfv) = c"
  "date (raw_row c d nc pop tc td pfv) = d"
  "cells (raw_row c d nc pop tc td pfv) ''new_cases'' = nc"
  "cells (raw_row c d nc pop tc td pfv) ''population'' = pop"
  "cells (raw_row c d nc pop tc td pfv) ''total_cases'' = tc"
  "cells (raw_row c d nc pop tc td pfv) ''total_deaths'' = td"
  "cells (raw_row c d nc pop tc td pfv) ''people_fully_vaccinated'' = pfv"
  by (simp_all add: raw_row_def)

lemma cells_of_column:
  "i < length (rows df) \<Longrightarrow> column c df = v \<Longrightarrow> cells (rows df ! i) c = v ! i"
  by (auto simp add: column_def)

text \<open>
  C2.  The computation of the two rates per 100,000 has no guard on the population.  On
  the sample frame, the row with 5 new cases and a population of 0 gets an infinite
  incidence rate, and the row with a population of -1000 gets the rate -500; only the
  row whose population is missing is left without a rate.  The vaccination rate of the
  same function, which is guarded, is 0 on the row with the population of 0.
\<close>

theorem rates_per_100k_unguarded:
  "cells (rows (calculate_derived_metrics rates_frame) ! 0) ''incidence_rate_100k'' = NaN
   \<and> cells (rows (calculate_derived_metrics rates_frame) ! 1) ''incidence_rate_100k'' = PosInf
   \<and> cells (rows (calculate_derived_metrics rates_frame) ! 3) ''incidence_rate_100k''
       = Num (- 500)
   \<and> cells (rows (calculate_derived_metrics rates_frame) ! 1) ''vaccination_rate'' = Num 0"
proof -
  have len: "length (rows (calculate_derived_metrics rates_frame)) = 4"
    by (simp add: rates_frame_facts)
  have inc: "column ''incidence_rate_100k'' (calculate_derived_metrics rates_frame)
      = rate_column ''new_cases'' ''population'' 100000 rates_frame"
    by (rule calculate_derived_metrics_incidence) (simp_all add: rates_frame_facts raw_cols_mem)
  have vac: "column ''vaccination_rate'' (calculate_derived_metrics rates_frame)
      = guarded_rate_column ''people_fully_vaccinated'' ''population'' rates_frame"
    by (rule calculate_derived_metrics_vaccination)
       (simp_all add: rates_frame_facts raw_cols_mem)
  show ?thesis
    using len
    by (simp add: cells_of_column [OF _ inc] cells_of_column [OF _ vac]
        rate_column_nth guarded_rate_column_nth rates_frame_facts raw_row_sel fgreater_def)
qed

subsection \<open>The two rates with a defined zero\<close>







section \<open>Daily counters through the pipeline\<close>

lemma fillna_nth:
  "i < length xs \<Longrightarrow> fillna v xs ! i = (if xs ! i = NaN then v else xs ! i)"
  by (simp add: fillna_def)

lemma new_cases_is_daily: "''new_cases'' \<in> set daily_cols"
  by (simp add: daily_cols_def)

lemma imputed_daily_cell:
  assumes "c \<in> set daily_cols" and "c \<in> set (columns df)" and "i < length (rows df)"
  shows "cells (rows (handle_missing_values df) ! i) c
     = (if cells (rows df ! i) c = NaN then Num 0 else cells (rows df ! i) c)"
proof -
  have "i < length (rows (handle_missing_values df))" using assms(3) by simp
  from cells_of_column [OF this handle_missing_values_daily [OF assms(1,2)]]
  show ?thesis using assms(3) by (simp add: fillna_nth column_nth)
qed

text \<open>
  C9.  Imputation replaces a missing value of a daily counter by 0 wherever it stands,
  whatever the entity, so that no row has a missing daily counter in a column the
  frame has.  In the pipeline of imputation, derived metrics and scoring, a frame that
  has the column \<open>new_cases\<close> therefore never gets the penalty for a missing
  \<open>new_cases\<close>: the score is 100 less the penalties for total\_cases, population, a
  negative \<open>new_cases\<close> and an implausible fatality rate.
\<close>

theorem daily_counters_never_missing:
  assumes "i < length (rows df)"
  shows "(\<forall>c \<in> set daily_cols. c \<in> set (columns df) \<longrightarrow>
            cells (rows (handle_missing_values df) ! i) c
              = (if cells (rows df ! i) c = NaN then Num 0 else cells (rows df ! i) c)
            \<and> cells (rows (handle_missing_values df) ! i) c \<noteq> NaN)
   \<and> (''new_cases'' \<in> set (columns df) \<longrightarrow>
        notna (row_get (columns (calculate_derived_metrics (handle_missing_values df)))
                 (rows (calculate_derived_metrics (handle_missing_values df)) ! i)
                 ''new_cases'')
      \<and> calculate_data_quality_score
            (columns (calculate_derived_metrics (handle_missing_values df)))
            (rows (calculate_derived_metrics (handle_missing_values df)) ! i)
          = max 0 (100
             - (if isna (row_get (columns (calculate_derived_metrics (handle_missing_values df)))
                   (rows (calculate_derived_metrics (handle_missing_values df)) ! i)
                   ''total_cases'') then 15 else 0)
             - (if isna (row_get (columns (calculate_derived_metrics (handle_missing_values df)))
                   (rows (calculate_derived_metrics (handle_missing_values df)) ! i)
                   ''population'') then 15 else 0)
             - (if fless (cells (rows (calculate_derived_metrics (handle_missing_values df)) ! i)
                   ''new_cases'') (Num 0) then 10 else 0)
             - (if notna (row_get (columns (calculate_derived_metrics (handle_missing_values df)))
                   (rows (calculate_derived_metrics (handle_missing_values df)) ! i)
                   ''case_fatality_rate'')
                  \<and> fgreater (cells (rows (calculate_derived_metrics (handle_missing_values df)) ! i)
                       ''case_fatality_rate'') (Num 20)
                then 5 else 0)))"
proof -
  define imp where "imp = handle_missing_values df"
  define out where "out = calculate_derived_metrics imp"
  have daily: "cells (rows imp ! i) c
        = (if cells (rows df ! i) c = NaN then Num 0 else cells (rows df ! i) c)
      \<and> cells (rows imp ! i) c \<noteq> NaN"
    if "c \<in> set daily_cols" "c \<in> set (columns df)" for c
    using imputed_daily_cell [OF that assms] by (simp add: imp_def)
  have score: "notna (row_get (columns out) (rows out ! i) ''new_cases'')
      \<and> calculate_data_quality_score (columns out) (rows out ! i)
          = max 0 (100
             - (if isna (row_get (columns out) (rows out ! i) ''total_cases'') then 15 else 0)
             - (if isna (row_get (columns out) (rows out ! i) ''population'') then 15 else 0)
             - (if fless (cells (rows out ! i) ''new_cases'') (Num 0) then 10 else 0)
             - (if notna (row_get (columns out) (rows out ! i) ''case_fatality_rate'')
                  \<and> fgreater (cells (rows out ! i) ''case_fatality_rate'') (Num 20)
                then 5 else 0))"
    if nc: "''new_cases'' \<in> set (columns df)"
  proof -
    have li: "i < length (rows imp)" and lo: "i < length (rows out)"
      using assms by (simp_all add: imp_def out_def)
    have "column ''new_cases'' out = column ''new_cases'' imp"
      unfolding out_def by (rule calculate_derived_metrics_raw(1)) simp_all
    then have same: "cells (rows out ! i) ''new_cases'' = cells (rows imp ! i) ''new_cases''"
      using cells_of_column [OF lo] li by (simp add: column_nth)
    have "''new_cases'' \<in> set (columns imp)" using nc by (simp add: imp_def)
    then have mem: "''new_cases'' \<in> set (columns out)"
      unfolding out_def by (subst calculate_derived_metrics_raw(2)) simp_all
    have present: "notna (row_get (columns out) (rows out ! i) ''new_cases'')"
      using daily [OF new_cases_is_daily nc] same mem
      by (simp add: notna_def isna_def row_get_def)
    then show ?thesis
      unfolding quality_score_unfolded by (simp add: notna_def)
  qed
  show ?thesis
    using daily score unfolding imp_def out_def by blast
qed

theorem daily_counters_never_missing_witness:
  "cells (rows rates_frame ! 0) ''new_cases'' = NaN
   \<and> cells (rows (handle_missing_values rates_frame) ! 0) ''new_cases'' = Num 0
   \<and> notna (row_get (columns (calculate_derived_metrics (handle_missing_values rates_frame)))
                 (rows (calculate_derived_metrics (handle_missing_values rates_frame)) ! 0)
                 ''new_cases'')"
proof -
  have "0 < length (rows rates_frame)" by (simp add: rates_frame_facts)
  from daily_counters_never_missing [OF this] show ?thesis
    by (simp add: rates_frame_facts raw_row_sel raw_cols_mem new_cases_is_daily)
qed

section \<open>Moving averages\<close>







lemma finite_values_Num [simp]: "finite_values (map Num ys) = ys"
  by (induction ys) (simp_all add: finite_values_def)

















section \<open>Outcomes of a transformation run\<close>





end
